theory Spec2Isabelle
  imports Main
begin

section \<open>Process environment and JavaScript string helpers\<close>

text \<open>
  The environment variables the storage code reads. A variable that is not defined is
  \<open>None\<close>; a defined variable holds a string, possibly the empty one. The shared
  package reads \<^verbatim>\<open>process.env\<close> and \<^verbatim>\<open>env(...)\<close> of next-runtime-env, the web
  application reads its \<^verbatim>\<open>~/env\<close> object; that object is not among the sources, and
  the model hands both the same record.
\<close>

record env =
  KAN_STORAGE_DRIVER :: "string option"
  KAN_STORAGE_DIR :: "string option"
  S3_ENDPOINT :: "string option"
  S3_ACCESS_KEY_ID :: "string option"
  S3_SECRET_ACCESS_KEY :: "string option"
  NEXT_PUBLIC_STORAGE_URL :: "string option"
  NEXT_PUBLIC_BASE_URL :: "string option"
  NEXT_PUBLIC_UPLOADS_PATH :: "string option"

text \<open>
  JavaScript truthiness of a value of type \<^verbatim>\<open>string | undefined\<close>: \<^verbatim>\<open>undefined\<close> and
  the empty string are falsy, every other string is truthy. This is what
  \<^verbatim>\<open>if (process.env.X)\<close>, \<^verbatim>\<open>!!process.env.X\<close> and \<^verbatim>\<open>x ? a : b\<close> test.
\<close>

definition truthy :: "string option \<Rightarrow> bool" where
  "truthy v = (case v of None \<Rightarrow> False | Some s \<Rightarrow> s \<noteq> [])"

text \<open>
  \<^verbatim>\<open>String.prototype.toLowerCase\<close> on the ASCII letters. Characters are bytes here; no
  character outside ASCII lower-cases to one of the letters of \<^verbatim>\<open>fs\<close> or \<^verbatim>\<open>s3\<close>, so the
  comparison made in \<^verbatim>\<open>getStorageDriver\<close> is not affected.
\<close>

definition lowerChar :: "char \<Rightarrow> char" where
  "lowerChar c =
     (let n = (of_char c :: nat) in if 65 \<le> n \<and> n \<le> 90 then char_of (n + 32) else c)"

definition toLowerCase :: "string \<Rightarrow> string" where
  "toLowerCase s = map lowerChar s"

text \<open>\<^verbatim>\<open>s.startsWith(p)\<close> and \<^verbatim>\<open>s.endsWith(p)\<close>.\<close>

definition startsWith :: "string \<Rightarrow> string \<Rightarrow> bool" where
  "startsWith s p = (take (length p) s = p)"

definition endsWith :: "string \<Rightarrow> string \<Rightarrow> bool" where
  "endsWith s p = (length p \<le> length s \<and> drop (length s - length p) s = p)"

text \<open>
  \<^verbatim>\<open>s.split(c)\<close> for a one-character separator: the pieces between the separators, empty
  pieces included, so the empty string splits into one empty piece.
\<close>

fun splitOn :: "char \<Rightarrow> string \<Rightarrow> string list" where
  "splitOn c [] = [[]]"
| "splitOn c (x # xs) =
     (if x = c then [] # splitOn c xs
      else (case splitOn c xs of [] \<Rightarrow> [[x]] | y # ys \<Rightarrow> (x # y) # ys))"

text \<open>\<^verbatim>\<open>parts.join(sep)\<close>.\<close>

fun joinWith :: "string \<Rightarrow> string list \<Rightarrow> string" where
  "joinWith sep [] = []"
| "joinWith sep [x] = x"
| "joinWith sep (x # y # ys) = x @ sep @ joinWith sep (y # ys)"

section \<open>POSIX path resolution\<close>

text \<open>
  \<^verbatim>\<open>path.resolve\<close> of Node.js on a POSIX host (\<^verbatim>\<open>path.sep\<close> is \<^verbatim>\<open>/\<close>), a library function
  of the platform. Its loop walks the arguments from the right, then the working
  directory, skipping empty strings and prepending \<^verbatim>\<open>path + "/"\<close> until an absolute
  path has been prepended.
\<close>

fun resolveLoop :: "string list \<Rightarrow> string \<Rightarrow> bool \<Rightarrow> string" where
  "resolveLoop [] resolvedPath resolvedAbsolute = resolvedPath"
| "resolveLoop (p # ps) resolvedPath resolvedAbsolute =
     (if resolvedAbsolute then resolvedPath
      else if p = [] then resolveLoop ps resolvedPath resolvedAbsolute
      else resolveLoop ps (p @ ''/'' @ resolvedPath) (hd p = CHR ''/''))"

text \<open>
  The normalisation of an absolute path, segment by segment: empty segments and \<^verbatim>\<open>.\<close>
  are dropped, \<^verbatim>\<open>..\<close> removes the segment before it and is dropped at the root.
\<close>

fun normalizeSegs :: "string list \<Rightarrow> string list \<Rightarrow> string list" where
  "normalizeSegs res [] = res"
| "normalizeSegs res (s # ss) =
     (if s = [] \<or> s = ''.'' then normalizeSegs res ss
      else if s = ''..'' then normalizeSegs (butlast res) ss
      else normalizeSegs (res @ [s]) ss)"

text \<open>
  The working directory of a process is an absolute path, so the loop always ends on
  an absolute path and the result is \<^verbatim>\<open>/\<close> followed by the normalised segments.
\<close>

definition path_resolve :: "string \<Rightarrow> string list \<Rightarrow> string" where
  "path_resolve cwd args =
     CHR ''/'' # joinWith ''/''
       (normalizeSegs [] (splitOn CHR ''/'' (resolveLoop (rev (cwd # args)) [] False)))"

text \<open>
  Notions to state results with. The segments a resolution ends on, and a segment as a
  normalised path has it: not empty, free of slashes, neither \<^verbatim>\<open>.\<close> nor \<^verbatim>\<open>..\<close>. The
  segments of an absolute path given as a string. A path lies inside a root directory
  when the root's segments are an initial part of the path's segments, none of which
  steps sideways or upwards; it lies below the root when it is inside and longer.
\<close>

definition resolvedSegs :: "string \<Rightarrow> string list \<Rightarrow> string list" where
  "resolvedSegs cwd args =
     normalizeSegs [] (splitOn CHR ''/'' (resolveLoop (rev (cwd # args)) [] False))"

definition cleanSeg :: "string \<Rightarrow> bool" where
  "cleanSeg s = (s \<noteq> [] \<and> CHR ''/'' \<notin> set s \<and> s \<noteq> ''.'' \<and> s \<noteq> ''..'')"

definition pathSegments :: "string \<Rightarrow> string list" where
  "pathSegments p = filter (\<lambda>s. s \<noteq> []) (splitOn CHR ''/'' p)"

definition inside :: "string \<Rightarrow> string \<Rightarrow> bool" where
  "inside root p =
     (take (length (pathSegments root)) (pathSegments p) = pathSegments root
      \<and> ''..'' \<notin> set (pathSegments p) \<and> ''.'' \<notin> set (pathSegments p))"

definition below :: "string \<Rightarrow> string \<Rightarrow> bool" where
  "below root p = (inside root p \<and> length (pathSegments root) < length (pathSegments p))"

section \<open>Storage driver resolution\<close>

text \<open>
  \<^verbatim>\<open>getStorageDriver\<close> of packages/shared/src/utils/s3.ts: an explicit
  \<^verbatim>\<open>KAN_STORAGE_DRIVER\<close> (case-insensitive) wins when it is \<^verbatim>\<open>fs\<close> or \<^verbatim>\<open>s3\<close>; then a truthy
  \<^verbatim>\<open>S3_ENDPOINT\<close> gives \<^verbatim>\<open>s3\<close>; then a truthy \<^verbatim>\<open>KAN_STORAGE_DIR\<close> gives \<^verbatim>\<open>fs\<close>; else \<^verbatim>\<open>s3\<close>.
\<close>

definition getStorageDriver :: "env \<Rightarrow> string" where
  "getStorageDriver e =
     (let explicit = map_option toLowerCase (KAN_STORAGE_DRIVER e);
          inferred = (if truthy (S3_ENDPOINT e) then ''s3''
                      else if truthy (KAN_STORAGE_DIR e) then ''fs''
                      else ''s3'')
      in case explicit of
           None \<Rightarrow> inferred
         | Some d \<Rightarrow> if d = ''fs'' \<or> d = ''s3'' then d else inferred)"

text \<open>
  The local resolution of the attachment downloader (its own \<^verbatim>\<open>getStorageDriver\<close>):
  \<^verbatim>\<open>configuredDriver ?? (storageDir ? "fs" : s3Endpoint ? "s3" : "s3")\<close>. The operator
  \<^verbatim>\<open>??\<close> falls through on \<^verbatim>\<open>undefined\<close> only, so any defined value is returned as it is.
\<close>

definition getStorageDriver_download :: "env \<Rightarrow> string" where
  "getStorageDriver_download e =
     (case KAN_STORAGE_DRIVER e of
        Some configuredDriver \<Rightarrow> configuredDriver
      | None \<Rightarrow> if truthy (KAN_STORAGE_DIR e) then ''fs''
                else if truthy (S3_ENDPOINT e) then ''s3'' else ''s3'')"

text \<open>The same expression, written inline in the handler of the upload file server.\<close>

definition uploads_driver :: "env \<Rightarrow> string" where
  "uploads_driver e =
     (case KAN_STORAGE_DRIVER e of
        Some configuredDriver \<Rightarrow> configuredDriver
      | None \<Rightarrow> if truthy (KAN_STORAGE_DIR e) then ''fs''
                else if truthy (S3_ENDPOINT e) then ''s3'' else ''s3'')"

section \<open>Storage facade\<close>

text \<open>
  \<^verbatim>\<open>String.prototype.trim\<close> is a function of the platform: it removes the white space and
  the line terminators of Unicode (among them U+00A0, U+FEFF and U+2028) from both ends.
  The functions that call it take it as the parameter \<open>trim\<close>, so what is proved of
  them holds whatever that function removes.
\<close>

definition normalizePublicPath ::
  "(string \<Rightarrow> string) \<Rightarrow> string option \<Rightarrow> string \<Rightarrow> string" where
  "normalizePublicPath trim pathname_opt fallback =
     (let trimmed = trim (case pathname_opt of None \<Rightarrow> [] | Some p \<Rightarrow> p);
          value = (if length trimmed > 0 then trimmed else fallback)
      in if value = ''/'' then []
         else let withLeadingSlash = (if startsWith value ''/'' then value else ''/'' @ value)
              in if endsWith withLeadingSlash ''/'' then butlast withLeadingSlash
                 else withLeadingSlash)"

text \<open>
  \<^verbatim>\<open>p.replace(/^\/+/, "").replace(/\/+$/, "")\<close>: all leading and all trailing slashes go.
\<close>

definition stripSlashes :: "string \<Rightarrow> string" where
  "stripSlashes p =
     rev (dropWhile (\<lambda>c. c = CHR ''/'') (rev (dropWhile (\<lambda>c. c = CHR ''/'') p)))"

definition joinUrl :: "string \<Rightarrow> string list \<Rightarrow> string" where
  "joinUrl base parts =
     (let trimmedBase = (if endsWith base ''/'' then butlast base else base);
          cleaned = filter (\<lambda>p. length p > 0)
                      (map stripSlashes (filter (\<lambda>p. p \<noteq> []) parts))
      in if length cleaned = 0 then trimmedBase
         else trimmedBase @ ''/'' @ joinWith ''/'' cleaned)"

definition getUploadsPublicPath :: "(string \<Rightarrow> string) \<Rightarrow> env \<Rightarrow> string" where
  "getUploadsPublicPath trim e =
     normalizePublicPath trim (NEXT_PUBLIC_UPLOADS_PATH e) ''/uploads''"

definition getPublicObjectUrl ::
  "(string \<Rightarrow> string) \<Rightarrow> env \<Rightarrow> string \<Rightarrow> string \<Rightarrow> string option" where
  "getPublicObjectUrl trim e bucket key =
     (if \<not> truthy (NEXT_PUBLIC_STORAGE_URL e) then None
      else case NEXT_PUBLIC_STORAGE_URL e of
             None \<Rightarrow> None
           | Some storageUrl \<Rightarrow> Some (joinUrl storageUrl [getUploadsPublicPath trim e, bucket, key]))"

text \<open>
  What a function of the facade throws: an \<^verbatim>\<open>Error\<close> made here, with its message, or
  the rejection of a call to the platform passed on, with the \<^verbatim>\<open>code\<close> property it
  carries, if any.
\<close>

type_synonym errcode = "string option"

datatype thrown = Error string | Rethrown errcode

text \<open>
  \<^verbatim>\<open>generateDownloadUrl\<close>. The presigner of the AWS SDK is a parameter: it maps bucket,
  key and lifetime to a URL or rejects.
\<close>

definition generateDownloadUrl ::
  "(string \<Rightarrow> string) \<Rightarrow> env \<Rightarrow> (string \<Rightarrow> string \<Rightarrow> nat \<Rightarrow> thrown + string) \<Rightarrow> string \<Rightarrow> string \<Rightarrow> nat
   \<Rightarrow> thrown + string" where
  "generateDownloadUrl trim e getSignedUrl bucket key expiresIn =
     (if getStorageDriver e = ''fs'' then
        (case getPublicObjectUrl trim e bucket key of
           None \<Rightarrow> Inl (Error ''Storage URL not configured'')
         | Some url \<Rightarrow> if url = [] then Inl (Error ''Storage URL not configured'')
                       else Inr url)
      else getSignedUrl bucket key expiresIn)"

text \<open>
  The parsed form of a URL (\<^verbatim>\<open>new URL(s)\<close>), as far as the code reads it. The parser
  itself is a parameter of the functions that use it; it yields nothing where
  \<^verbatim>\<open>new URL\<close> throws.
\<close>

record url =
  protocol :: string
  origin :: string
  pathname :: string

text \<open>The calls that leave the process, in the order in which a function makes them.\<close>

datatype effect =
    Stat string
  | Read string
  | Unlink string
  | Fetch url
  | S3Delete string string

fun effect_path :: "effect \<Rightarrow> string option" where
  "effect_path (Stat p) = Some p"
| "effect_path (Read p) = Some p"
| "effect_path (Unlink p) = Some p"
| "effect_path (Fetch u) = None"
| "effect_path (S3Delete b k) = None"

definition uploadsRoot :: "string \<Rightarrow> string \<Rightarrow> string" where
  "uploadsRoot cwd storageDir = path_resolve cwd [storageDir, ''uploads'']"

text \<open>
  \<^verbatim>\<open>deleteObject\<close>. \<^verbatim>\<open>unlink\<close> maps a path to nothing when the call resolves and to the
  code of the error when it rejects; \<^verbatim>\<open>s3Delete\<close> stands for sending the
  \<^verbatim>\<open>DeleteObjectCommand\<close>.
\<close>

definition deleteObject ::
  "env \<Rightarrow> string \<Rightarrow> (string \<Rightarrow> errcode option) \<Rightarrow> (string \<Rightarrow> string \<Rightarrow> errcode option)
   \<Rightarrow> string \<Rightarrow> string \<Rightarrow> (thrown + unit) \<times> effect list" where
  "deleteObject e cwd unlink s3Delete bucket key =
     (if getStorageDriver e = ''fs'' then
        (case KAN_STORAGE_DIR e of
           None \<Rightarrow> (Inl (Error ''KAN_STORAGE_DIR is required for fs storage''), [])
         | Some storageDir \<Rightarrow>
             if storageDir = [] then
               (Inl (Error ''KAN_STORAGE_DIR is required for fs storage''), [])
             else
               let root = uploadsRoot cwd storageDir;
                   candidate = path_resolve cwd
                     (root # bucket # filter (\<lambda>s. s \<noteq> []) (splitOn CHR ''/'' key))
               in if \<not> startsWith candidate (root @ ''/'') \<and> candidate \<noteq> root then
                    (Inl (Error ''Invalid storage key''), [])
                  else
                    (case unlink candidate of
                       None \<Rightarrow> (Inr (), [Unlink candidate])
                     | Some code \<Rightarrow>
                         if code = Some ''ENOENT'' then (Inr (), [Unlink candidate])
                         else (Inl (Rethrown code), [Unlink candidate])))
      else
        (case s3Delete bucket key of
           None \<Rightarrow> (Inr (), [S3Delete bucket key])
         | Some code \<Rightarrow> (Inl (Rethrown code), [S3Delete bucket key])))"

section \<open>Health and statistics endpoints\<close>

text \<open>
  The outcomes of the calls that leave the process: \<^verbatim>\<open>db.execute(sql`SELECT 1`)\<close>
  resolves, \<^verbatim>\<open>fs.mkdir\<close> (recursive) followed by \<^verbatim>\<open>fs.access\<close> resolves for a directory,
  the S3 client answers both \<^verbatim>\<open>HeadBucket\<close> commands.
\<close>

record probes =
  db_select_ok :: bool
  fs_mkdir_access_ok :: "string \<Rightarrow> bool"
  s3_head_buckets_ok :: bool

definition checkDatabaseConnection :: "probes \<Rightarrow> bool" where
  "checkDatabaseConnection pr = db_select_ok pr"

definition checkStorageConnection :: "env \<Rightarrow> string \<Rightarrow> probes \<Rightarrow> bool" where
  "checkStorageConnection e cwd pr =
     (if getStorageDriver e = ''fs'' then
        (case KAN_STORAGE_DIR e of
           None \<Rightarrow> False
         | Some storageDir \<Rightarrow>
             if storageDir = [] then False
             else fs_mkdir_access_ok pr (path_resolve cwd [storageDir, ''uploads'']))
      else if \<not> truthy (S3_ENDPOINT e) \<or> \<not> truthy (S3_ACCESS_KEY_ID e)
              \<or> \<not> truthy (S3_SECRET_ACCESS_KEY e) then True
      else s3_head_buckets_ok pr)"

definition storageConfigured :: "env \<Rightarrow> bool" where
  "storageConfigured e =
     (if getStorageDriver e = ''fs'' then truthy (KAN_STORAGE_DIR e)
      else truthy (S3_ENDPOINT e) \<and> truthy (S3_ACCESS_KEY_ID e)
           \<and> truthy (S3_SECRET_ACCESS_KEY e))"

record health_response =
  status :: string
  database :: string
  storage :: string

definition health :: "env \<Rightarrow> string \<Rightarrow> probes \<Rightarrow> health_response" where
  "health e cwd pr =
     (let dbHealthy = checkDatabaseConnection pr;
          storageHealthy = checkStorageConnection e cwd pr
      in \<lparr> status = (if dbHealthy \<and> (\<not> storageConfigured e \<or> storageHealthy)
                       then ''ok'' else ''error''),
           database = (if dbHealthy then ''ok'' else ''error''),
           storage = (if \<not> storageConfigured e then ''not_configured''
                      else if storageHealthy then ''ok'' else ''error'') \<rparr>)"

text \<open>
  The count queries of the repositories (package \<^verbatim>\<open>@kan/db\<close>, not among the sources) are
  parameters: each maps the database to a count or rejects. A rejection carries the
  message of an \<^verbatim>\<open>Error\<close>, or nothing when the value thrown is no \<^verbatim>\<open>Error\<close>.
\<close>

type_synonym rejection = "string option"

record 'db repos =
  userRepo_getCount :: "'db \<Rightarrow> rejection + int"
  workspaceRepo_getCount :: "'db \<Rightarrow> rejection + int"
  boardRepo_getCount :: "'db \<Rightarrow> rejection + int"
  listRepo_getCount :: "'db \<Rightarrow> rejection + int"
  cardRepo_getCount :: "'db \<Rightarrow> rejection + int"
  cardCommentRepo_getCount :: "'db \<Rightarrow> rejection + int"
  checklistRepo_getCountItems :: "'db \<Rightarrow> rejection + int"
  checklistRepo_getCount :: "'db \<Rightarrow> rejection + int"
  labelRepo_getCount :: "'db \<Rightarrow> rejection + int"
  cardAttachmentRepo_getCount :: "'db \<Rightarrow> rejection + int"
  cardActivityRepo_getCount :: "'db \<Rightarrow> rejection + int"
  memberRepo_getActiveCount :: "'db \<Rightarrow> rejection + int"
  inviteLinkRepo_getActiveCount :: "'db \<Rightarrow> rejection + int"
  importRepo_getCount :: "'db \<Rightarrow> rejection + int"

text \<open>
  \<^verbatim>\<open>Promise.all\<close>: the values in the order of the promises, or a rejection. (It rejects
  with the rejection that happens first in time; the model takes the first in the list.)
\<close>

fun promise_all :: "(rejection + 'a) list \<Rightarrow> rejection + 'a list" where
  "promise_all [] = Inr []"
| "promise_all (Inl r # ps) = Inl r"
| "promise_all (Inr v # ps) =
     (case promise_all ps of Inl r \<Rightarrow> Inl r | Inr vs \<Rightarrow> Inr (v # vs))"

text \<open>
  The object the statistics procedure returns; the keys \<^verbatim>\<open>lists\<close> and \<^verbatim>\<open>imports\<close> carry a
  suffix here, the names being taken in Isabelle.
\<close>

record stats_response =
  users :: int
  workspaces :: int
  boards :: int
  lists_field :: int
  cards :: int
  cardComments :: int
  checklistItems :: int
  checklists :: int
  labels :: int
  cardAttachments :: int
  cardActivities :: int
  activeMembers :: int
  activeInviteLinks :: int
  imports_field :: int
  cardActivityLogs :: int

text \<open>
  The sixteen queries in the order of the array given to \<^verbatim>\<open>Promise.all\<close>. The array
  pattern has fifteen names, so name number \<open>i\<close> is bound to element \<open>i\<close> for
  \<open>i < 15\<close> and the sixteenth element is bound to nothing.
\<close>

definition stats_queries :: "'db repos \<Rightarrow> 'db \<Rightarrow> (rejection + int) list" where
  "stats_queries r db =
     [userRepo_getCount r db, workspaceRepo_getCount r db, boardRepo_getCount r db,
      listRepo_getCount r db, cardRepo_getCount r db, cardCommentRepo_getCount r db,
      checklistRepo_getCountItems r db, checklistRepo_getCount r db, labelRepo_getCount r db,
      cardAttachmentRepo_getCount r db, cardActivityRepo_getCount r db,
      memberRepo_getActiveCount r db, inviteLinkRepo_getActiveCount r db,
      importRepo_getCount r db, memberRepo_getActiveCount r db,
      cardActivityRepo_getCount r db]"

definition stats :: "'db repos \<Rightarrow> 'db \<Rightarrow> string + stats_response" where
  "stats r db =
     (case promise_all (stats_queries r db) of
        Inl rejected \<Rightarrow>
          Inl (''Failed to retrieve statistics: '' @
               (case rejected of Some message \<Rightarrow> message | None \<Rightarrow> ''Unknown error''))
      | Inr counts \<Rightarrow>
          Inr \<lparr> users = counts ! 0, workspaces = counts ! 1, boards = counts ! 2,
                lists_field = counts ! 3, cards = counts ! 4, cardComments = counts ! 5,
                checklistItems = counts ! 6, checklists = counts ! 7, labels = counts ! 8,
                cardAttachments = counts ! 9, cardActivities = counts ! 10,
                activeMembers = counts ! 11, activeInviteLinks = counts ! 12,
                imports_field = counts ! 13, cardActivityLogs = counts ! 14 \<rparr>)"

section \<open>HTTP handlers of the web application\<close>

text \<open>
  A request as the handlers read it: the method, and the query, whose values are absent,
  a string, or an array of strings.
\<close>

datatype query_value = QUndefined | QString string | QArray "string list"

record request =
  req_method :: string
  query :: "string \<Rightarrow> query_value"

text \<open>
  What a handler answers: a status with a JSON body holding one message, a status with
  no body, the bytes of a file or of the upstream body piped to the response (whose
  status is then the default, 200), or an exception that leaves the handler.
\<close>

datatype response =
    Json nat string
  | End nat
  | Stream nat
  | Uncaught

fun status_of :: "response \<Rightarrow> nat option" where
  "status_of (Json n m) = Some n"
| "status_of (End n) = Some n"
| "status_of (Stream n) = Some n"
| "status_of Uncaught = None"

text \<open>The outcome of \<^verbatim>\<open>stat\<close>: a regular file of some size, something else, or a rejection.\<close>

datatype stat_result = IsFile nat | NotFile | StatRejects errcode

text \<open>The bucket pattern \<^verbatim>\<open>/^[a-zA-Z0-9._-]+$/\<close>.\<close>

definition isBucketChar :: "char \<Rightarrow> bool" where
  "isBucketChar c =
     (let n = (of_char c :: nat)
      in (97 \<le> n \<and> n \<le> 122) \<or> (65 \<le> n \<and> n \<le> 90) \<or> (48 \<le> n \<and> n \<le> 57)
         \<or> c = CHR ''.'' \<or> c = CHR ''_'' \<or> c = CHR ''-'')"

definition bucketOk :: "string \<Rightarrow> bool" where
  "bucketOk bucket = (bucket \<noteq> [] \<and> list_all isBucketChar bucket)"

text \<open>\<^verbatim>\<open>keyParts.some((p) => p.length === 0 || p === "." || p === "..")\<close>.\<close>

definition badKey :: "string list \<Rightarrow> bool" where
  "badKey keyParts = list_ex (\<lambda>p. length p = 0 \<or> p = ''.'' \<or> p = ''..'') keyParts"

text \<open>
  The handler of the upload file server. The response headers are left out; once the
  stream is open it is taken to run to its end.
\<close>

definition uploads_handler ::
  "env \<Rightarrow> string \<Rightarrow> (string \<Rightarrow> stat_result) \<Rightarrow> request \<Rightarrow> response \<times> effect list" where
  "uploads_handler e cwd stat req =
     (if req_method req \<noteq> ''GET'' \<and> req_method req \<noteq> ''HEAD'' then
        (Json 405 ''Method not allowed'', [])
      else if uploads_driver e \<noteq> ''fs'' then (Json 404 ''Not found'', [])
      else case KAN_STORAGE_DIR e of
        None \<Rightarrow> (Json 500 ''KAN_STORAGE_DIR not configured'', [])
      | Some storageDir \<Rightarrow>
          if storageDir = [] then (Json 500 ''KAN_STORAGE_DIR not configured'', [])
          else
            let parts = (case query req ''path'' of
                           QArray pathParts \<Rightarrow> pathParts
                         | QString pathParts \<Rightarrow> [pathParts]
                         | QUndefined \<Rightarrow> [])
            in (case parts of
                 [] \<Rightarrow> (Json 400 ''Invalid path'', [])
               | bucket # keyParts \<Rightarrow>
                   if bucket = [] \<or> length keyParts = 0 then (Json 400 ''Invalid path'', [])
                   else if \<not> bucketOk bucket then (Json 400 ''Invalid bucket'', [])
                   else if badKey keyParts then (Json 400 ''Invalid key'', [])
                   else
                     let root = uploadsRoot cwd storageDir;
                         filePath = path_resolve cwd (root # bucket # keyParts)
                     in if \<not> startsWith filePath (root @ ''/'') then
                          (Json 400 ''Invalid path'', [])
                        else
                          (case stat filePath of
                             StatRejects code \<Rightarrow>
                               if code = Some ''ENOENT'' then
                                 (Json 404 ''Not found'', [Stat filePath])
                               else (Json 500 ''Internal server error'', [Stat filePath])
                           | NotFile \<Rightarrow> (Json 404 ''Not found'', [Stat filePath])
                           | IsFile fileSize \<Rightarrow>
                               if req_method req = ''HEAD'' then (End 200, [Stat filePath])
                               else (Stream 200, [Stat filePath, Read filePath]))))"

text \<open>The attachment downloader: its helpers first.\<close>

definition normalizeUploadsPath :: "(string \<Rightarrow> string) \<Rightarrow> string option \<Rightarrow> string" where
  "normalizeUploadsPath trim pathname_opt =
     (let trimmed = trim (case pathname_opt of None \<Rightarrow> [] | Some p \<Rightarrow> p);
          value = (if length trimmed > 0 then trimmed else ''/uploads'')
      in if value = ''/'' then []
         else let withLeadingSlash = (if startsWith value ''/'' then value else ''/'' @ value)
              in if endsWith withLeadingSlash ''/'' then butlast withLeadingSlash
                 else withLeadingSlash)"

text \<open>
  \<^verbatim>\<open>getAllowedOrigins\<close>: the origins of those of \<^verbatim>\<open>NEXT_PUBLIC_STORAGE_URL\<close> and
  \<^verbatim>\<open>NEXT_PUBLIC_BASE_URL\<close> that are non-empty strings and parse as URLs.
\<close>

definition getAllowedOrigins :: "env \<Rightarrow> (string \<Rightarrow> url option) \<Rightarrow> string list" where
  "getAllowedOrigins e parseURL =
     (let candidates = filter (\<lambda>v. length v > 0)
            (List.map_filter (\<lambda>v. v) [NEXT_PUBLIC_STORAGE_URL e, NEXT_PUBLIC_BASE_URL e])
      in map origin (List.map_filter parseURL candidates))"

text \<open>
  The upstream response as the handler reads it, and the outcome of \<^verbatim>\<open>fetch\<close>: a response
  or a rejection.
\<close>

record upstream =
  up_ok :: bool
  up_status :: nat
  up_has_body :: bool

datatype fetch_result = Resolved upstream | FetchRejects

text \<open>
  The branch that serves an upload from the disk. Its path segments are
  \<^verbatim>\<open>remainder.split("/").filter(Boolean).map((p) => decodeURIComponent(p))\<close>;
  \<^verbatim>\<open>decodeURIComponent\<close> is a parameter that yields nothing where the function throws; the
  call stands outside every \<^verbatim>\<open>try\<close> block, so the exception leaves the handler.
\<close>

definition uploadParts ::
  "(string \<Rightarrow> string option) \<Rightarrow> string \<Rightarrow> url \<Rightarrow> string list option" where
  "uploadParts decodeURIComponent uploadsPath parsedUrl =
     (let remainder = drop (length uploadsPath + 1) (pathname parsedUrl)
      in those (map decodeURIComponent
                  (filter (\<lambda>s. s \<noteq> []) (splitOn CHR ''/'' remainder))))"

definition serveLocal ::
  "string \<Rightarrow> (string \<Rightarrow> string option) \<Rightarrow> (string \<Rightarrow> stat_result) \<Rightarrow> string \<Rightarrow> string \<Rightarrow> url
   \<Rightarrow> response \<times> effect list" where
  "serveLocal cwd decodeURIComponent stat storageDir uploadsPath parsedUrl =
     (case uploadParts decodeURIComponent uploadsPath parsedUrl of
           None \<Rightarrow> (Uncaught, [])
         | Some parts \<Rightarrow>
            (case parts of
               [] \<Rightarrow> (Json 400 ''Invalid upload path'', [])
             | bucket # keyParts \<Rightarrow>
                 if bucket = [] \<or> length keyParts = 0 then
                   (Json 400 ''Invalid upload path'', [])
                 else if \<not> bucketOk bucket then (Json 400 ''Invalid bucket'', [])
                 else if badKey keyParts then (Json 400 ''Invalid key'', [])
                 else
                   let root = uploadsRoot cwd storageDir;
                       filePath = path_resolve cwd (root # bucket # keyParts)
                   in if \<not> startsWith filePath (root @ ''/'') then
                        (Json 400 ''Invalid path'', [])
                      else
                        (case stat filePath of
                           StatRejects code \<Rightarrow>
                             if code = Some ''ENOENT'' then
                               (Json 404 ''Not found'', [Stat filePath])
                             else (Json 500 ''Failed to download attachment'',
                                   [Stat filePath])
                         | NotFile \<Rightarrow> (Json 404 ''Not found'', [Stat filePath])
                         | IsFile fileSize \<Rightarrow> (Stream 200, [Stat filePath, Read filePath]))))"

text \<open>The fallback: fetch from upstream and stream to the client.\<close>

definition fetchFallback :: "(url \<Rightarrow> fetch_result) \<Rightarrow> url \<Rightarrow> response \<times> effect list" where
  "fetchFallback fetch parsedUrl =
     (case fetch parsedUrl of
        FetchRejects \<Rightarrow> (Json 500 ''Failed to download attachment'', [Fetch parsedUrl])
      | Resolved up \<Rightarrow>
          if \<not> up_ok up then
            (Json (up_status up) ''Failed to fetch attachment'', [Fetch parsedUrl])
          else if \<not> up_has_body up then
            (Json 502 ''Upstream returned no body'', [Fetch parsedUrl])
          else (Stream 200, [Fetch parsedUrl]))"

text \<open>
  The handler of the attachment downloader, inside its rate limiter (a wrapper of
  another package, not modelled). The response headers are left out, and with them the
  \<^verbatim>\<open>filename\<close> parameter, which only feeds \<^verbatim>\<open>Content-Disposition\<close>: \<^verbatim>\<open>encodeURIComponent\<close>
  throws on a lone surrogate only, which a parsed query string does not hold. Once a
  stream is open it is taken to run to its end.
\<close>

definition download_handler ::
  "(string \<Rightarrow> string) \<Rightarrow> env \<Rightarrow> string \<Rightarrow> (string \<Rightarrow> url option) \<Rightarrow> (string \<Rightarrow> string option)
   \<Rightarrow> (string \<Rightarrow> stat_result) \<Rightarrow> (url \<Rightarrow> fetch_result) \<Rightarrow> request
   \<Rightarrow> response \<times> effect list" where
  "download_handler trim e cwd parseURL decodeURIComponent stat fetch req =
     (if req_method req \<noteq> ''GET'' then (Json 405 ''Method not allowed'', [])
      else case query req ''url'' of
        QUndefined \<Rightarrow> (Json 400 ''url parameter is required'', [])
      | QArray us \<Rightarrow> (Json 400 ''url parameter is required'', [])
      | QString u \<Rightarrow>
          if u = [] then (Json 400 ''url parameter is required'', [])
          else (case parseURL u of
            None \<Rightarrow> (Json 400 ''Invalid url'', [])
          | Some parsedUrl \<Rightarrow>
              if protocol parsedUrl \<noteq> ''http:'' \<and> protocol parsedUrl \<noteq> ''https:'' then
                (Json 400 ''Invalid url protocol'', [])
              else
                let allowedOrigins = getAllowedOrigins e parseURL
                in if length allowedOrigins > 0
                      \<and> origin parsedUrl \<notin> set allowedOrigins then
                     (Json 400 ''Disallowed url'', [])
                   else if getStorageDriver_download e = ''fs'' then
                     (case KAN_STORAGE_DIR e of
                        None \<Rightarrow> (Json 500 ''KAN_STORAGE_DIR not configured'', [])
                      | Some storageDir \<Rightarrow>
                          if storageDir = [] then
                            (Json 500 ''KAN_STORAGE_DIR not configured'', [])
                          else
                            let uploadsPath =
                                  normalizeUploadsPath trim (NEXT_PUBLIC_UPLOADS_PATH e)
                            in if uploadsPath \<noteq> []
                                  \<and> startsWith (pathname parsedUrl) (uploadsPath @ ''/'')
                               then serveLocal cwd decodeURIComponent stat storageDir
                                      uploadsPath parsedUrl
                               else fetchFallback fetch parsedUrl)
                   else fetchFallback fetch parsedUrl))"

text \<open>A predicate on strings used to state results: two slashes in a row.\<close>

fun hasDoubleSlash :: "string \<Rightarrow> bool" where
  "hasDoubleSlash (a # b # cs) = ((a = CHR ''/'' \<and> b = CHR ''/'') \<or> hasDoubleSlash (b # cs))"
| "hasDoubleSlash cs = False"

text \<open>
  Two slashes in a row at a given position of a string. And, for a list of components
  written one after the other, each behind one slash, a position that lies inside a
  component at a place where that component has two slashes in a row.
\<close>

definition doubleSlashAt :: "string \<Rightarrow> nat \<Rightarrow> bool" where
  "doubleSlashAt s i = (Suc i < length s \<and> s ! i = CHR ''/'' \<and> s ! Suc i = CHR ''/'')"

fun doubleSlashInComponent :: "string list \<Rightarrow> nat \<Rightarrow> bool" where
  "doubleSlashInComponent [] j = False"
| "doubleSlashInComponent (c # cs) j =
     ((0 < j \<and> doubleSlashAt c (j - 1))
      \<or> (length c < j \<and> doubleSlashInComponent cs (j - Suc (length c))))"

text \<open>
  The two ingredients of a public object URL as the facade builds it: the storage URL
  without one trailing slash, and the non-empty ones among the uploads path, the bucket
  and the key, each without its leading and trailing slashes.
\<close>

definition trimmedBase :: "string \<Rightarrow> string" where
  "trimmedBase storageUrl = (if endsWith storageUrl ''/'' then butlast storageUrl else storageUrl)"

definition urlComponents ::
  "(string \<Rightarrow> string) \<Rightarrow> env \<Rightarrow> string \<Rightarrow> string \<Rightarrow> string list" where
  "urlComponents trim e bucket key =
     filter (\<lambda>p. p \<noteq> []) (map stripSlashes [getUploadsPublicPath trim e, bucket, key])"

text \<open>
  Every filesystem path among the effects satisfies a predicate; a path lies below, or
  inside, the uploads root of the configured storage directory.
\<close>

definition touches_only :: "(string \<Rightarrow> bool) \<Rightarrow> effect list \<Rightarrow> bool" where
  "touches_only P effs =
     list_all (\<lambda>eff. case effect_path eff of None \<Rightarrow> True | Some p \<Rightarrow> P p) effs"

definition underRoot :: "env \<Rightarrow> string \<Rightarrow> string \<Rightarrow> bool" where
  "underRoot e cwd p =
     (case KAN_STORAGE_DIR e of None \<Rightarrow> False | Some d \<Rightarrow> below (uploadsRoot cwd d) p)"

definition withinRoot :: "env \<Rightarrow> string \<Rightarrow> string \<Rightarrow> bool" where
  "withinRoot e cwd p =
     (case KAN_STORAGE_DIR e of None \<Rightarrow> False | Some d \<Rightarrow> inside (uploadsRoot cwd d) p)"

section \<open>Concrete environments\<close>

text \<open>An environment with no variable defined, the base of the concrete examples.\<close>

definition empty_env :: env where
  "empty_env = \<lparr> KAN_STORAGE_DRIVER = None, KAN_STORAGE_DIR = None, S3_ENDPOINT = None,
     S3_ACCESS_KEY_ID = None, S3_SECRET_ACCESS_KEY = None, NEXT_PUBLIC_STORAGE_URL = None,
     NEXT_PUBLIC_BASE_URL = None, NEXT_PUBLIC_UPLOADS_PATH = None \<rparr>"

text \<open>
  A deployment that defines both a storage directory and an S3 endpoint and leaves the
  driver to be inferred.
\<close>

definition both_env :: env where
  "both_env = empty_env \<lparr> KAN_STORAGE_DIR := Some ''/data'',
     S3_ENDPOINT := Some ''http://minio:9000'' \<rparr>"

text \<open>The filesystem driver chosen explicitly, with its storage directory.\<close>

definition fs_env :: env where
  "fs_env = empty_env \<lparr> KAN_STORAGE_DRIVER := Some ''fs'', KAN_STORAGE_DIR := Some ''/data'' \<rparr>"

definition all_ok :: probes where
  "all_ok = \<lparr> db_select_ok = True, fs_mkdir_access_ok = (\<lambda>p. True), s3_head_buckets_ok = True \<rparr>"

text \<open>
  Repositories over a database that is a single number: every query succeeds, the card
  activities count 100 and the active members 7.
\<close>

definition demo_repos :: "nat repos" where
  "demo_repos = \<lparr> userRepo_getCount = (\<lambda>db. Inr 1), workspaceRepo_getCount = (\<lambda>db. Inr 2),
     boardRepo_getCount = (\<lambda>db. Inr 3), listRepo_getCount = (\<lambda>db. Inr 4),
     cardRepo_getCount = (\<lambda>db. Inr 5), cardCommentRepo_getCount = (\<lambda>db. Inr 6),
     checklistRepo_getCountItems = (\<lambda>db. Inr 8), checklistRepo_getCount = (\<lambda>db. Inr 9),
     labelRepo_getCount = (\<lambda>db. Inr 10), cardAttachmentRepo_getCount = (\<lambda>db. Inr 11),
     cardActivityRepo_getCount = (\<lambda>db. Inr 100), memberRepo_getActiveCount = (\<lambda>db. Inr 7),
     inviteLinkRepo_getActiveCount = (\<lambda>db. Inr 12), importRepo_getCount = (\<lambda>db. Inr 13) \<rparr>"

definition demo_stats :: stats_response where
  "demo_stats = \<lparr> users = 1, workspaces = 2, boards = 3, lists_field = 4, cards = 5,
     cardComments = 6, checklistItems = 8, checklists = 9, labels = 10,
     cardAttachments = 11, cardActivities = 100, activeMembers = 7,
     activeInviteLinks = 12, imports_field = 13, cardActivityLogs = 7 \<rparr>"

text \<open>
  A trim for the examples, whose strings are ASCII: it removes tab, line feed, vertical
  tab, form feed, carriage return and space from both ends.
\<close>

definition isSpace :: "char \<Rightarrow> bool" where
  "isSpace c = (let n = (of_char c :: nat) in (9 \<le> n \<and> n \<le> 13) \<or> n = 32)"

definition trimAscii :: "string \<Rightarrow> string" where
  "trimAscii s = rev (dropWhile isSpace (rev (dropWhile isSpace s)))"

text \<open>
  Concrete parameters for the examples: a disk with no file on it and one with the file
  \<^verbatim>\<open>/data/uploads/avatars/y\<close>, requests that carry
  one query parameter, a URL parser and a decoder that know the strings of the examples,
  an upstream that answers 403, an \<^verbatim>\<open>unlink\<close> that finds nothing, an S3 client, and the
  filesystem environment with a public storage URL.
\<close>

definition no_files :: "string \<Rightarrow> stat_result" where
  "no_files p = StatRejects (Some ''ENOENT'')"

definition one_file :: "string \<Rightarrow> stat_result" where
  "one_file p =
     (if p = ''/data/uploads/avatars/y'' then IsFile 3 else StatRejects (Some ''ENOENT''))"

definition path_request :: "string \<Rightarrow> string list \<Rightarrow> request" where
  "path_request m parts =
     \<lparr> req_method = m, query = (\<lambda>k. if k = ''path'' then QArray parts else QUndefined) \<rparr>"

definition url_request :: "string \<Rightarrow> string \<Rightarrow> request" where
  "url_request m u =
     \<lparr> req_method = m, query = (\<lambda>k. if k = ''url'' then QString u else QUndefined) \<rparr>"

definition demo_parseURL :: "string \<Rightarrow> url option" where
  "demo_parseURL s =
     (if s = ''https://kan.example'' then
        Some \<lparr> protocol = ''https:'', origin = ''https://kan.example'', pathname = ''/'' \<rparr>
      else if s = ''https://kan.example/uploads/avatars/..%2F..%2Fsecret'' then
        Some \<lparr> protocol = ''https:'', origin = ''https://kan.example'',
               pathname = ''/uploads/avatars/..%2F..%2Fsecret'' \<rparr>
      else if s = ''https://evil.example/x'' then
        Some \<lparr> protocol = ''https:'', origin = ''https://evil.example'', pathname = ''/x'' \<rparr>
      else None)"

definition demo_decode :: "string \<Rightarrow> string option" where
  "demo_decode s = (if s = ''..%2F..%2Fsecret'' then Some ''../../secret'' else Some s)"

definition forbidden :: "url \<Rightarrow> fetch_result" where
  "forbidden u = Resolved \<lparr> up_ok = False, up_status = 403, up_has_body = True \<rparr>"

definition enoent :: "string \<Rightarrow> errcode option" where
  "enoent p = Some (Some ''ENOENT'')"

definition s3_unused :: "string \<Rightarrow> string \<Rightarrow> errcode option" where
  "s3_unused b k = None"

definition web_env :: env where
  "web_env = fs_env \<lparr> NEXT_PUBLIC_STORAGE_URL := Some ''https://kan.example'' \<rparr>"

definition reachable :: "url \<Rightarrow> fetch_result" where
  "reachable u = Resolved \<lparr> up_ok = True, up_status = 200, up_has_body = True \<rparr>"

definition evil_url :: url where
  "evil_url = \<lparr> protocol = ''https:'', origin = ''https://evil.example'', pathname = ''/x'' \<rparr>"

definition no_signer :: "string \<Rightarrow> string \<Rightarrow> nat \<Rightarrow> thrown + string" where
  "no_signer b k n = Inl (Error ''no S3 client'')"

definition bare_env :: env where
  "bare_env = fs_env \<lparr> NEXT_PUBLIC_STORAGE_URL := Some ''/'',
     NEXT_PUBLIC_UPLOADS_PATH := Some ''/'' \<rparr>"

definition slash_env :: env where
  "slash_env = fs_env \<lparr> NEXT_PUBLIC_STORAGE_URL := Some ''https://kan.example//'' \<rparr>"

section \<open>Driver resolution: results\<close>

lemma truthy_simps [simp]:
  "truthy None = False" "truthy (Some s) = (s \<noteq> [])"
  by (simp_all add: truthy_def)

lemma toLowerCase_fs [simp]: "toLowerCase ''fs'' = ''fs''"
  by (simp add: toLowerCase_def lowerChar_def)

text \<open>
  The shared resolver follows the documented order: with no explicit driver, a truthy
  endpoint gives \<^verbatim>\<open>s3\<close>; without one a truthy storage directory gives \<^verbatim>\<open>fs\<close>; with
  neither the result is \<^verbatim>\<open>s3\<close>.
\<close>

lemma getStorageDriver_inferred:
  assumes "KAN_STORAGE_DRIVER e = None"
  shows "truthy (S3_ENDPOINT e) \<Longrightarrow> getStorageDriver e = ''s3''"
    and "\<not> truthy (S3_ENDPOINT e) \<Longrightarrow> truthy (KAN_STORAGE_DIR e) \<Longrightarrow> getStorageDriver e = ''fs''"
    and "\<not> truthy (S3_ENDPOINT e) \<Longrightarrow> \<not> truthy (KAN_STORAGE_DIR e) \<Longrightarrow> getStorageDriver e = ''s3''"
  using assms by (simp_all add: getStorageDriver_def)

lemma getStorageDriver_range: "getStorageDriver e = ''fs'' \<or> getStorageDriver e = ''s3''"
  by (auto simp: getStorageDriver_def Let_def split: option.splits)

text \<open>
  The resolvers of the web application agree with the shared one when the driver is
  given as \<^verbatim>\<open>fs\<close> or \<^verbatim>\<open>s3\<close> in lower case, and when it is undefined and the endpoint and
  the storage directory are not both truthy.
\<close>

lemma resolvers_agree:
  assumes "KAN_STORAGE_DRIVER e = Some ''fs'' \<or> KAN_STORAGE_DRIVER e = Some ''s3''
           \<or> (KAN_STORAGE_DRIVER e = None
               \<and> \<not> (truthy (S3_ENDPOINT e) \<and> truthy (KAN_STORAGE_DIR e)))"
  shows "uploads_driver e = getStorageDriver e"
    and "getStorageDriver_download e = getStorageDriver e"
  using assms
  by (auto simp: uploads_driver_def getStorageDriver_download_def getStorageDriver_def
      toLowerCase_def lowerChar_def)

text \<open>
  C3. The claim: in every component that resolves the storage driver, an unset
  \<^verbatim>\<open>KAN_STORAGE_DRIVER\<close> with \<^verbatim>\<open>S3_ENDPOINT\<close> set resolves to \<^verbatim>\<open>s3\<close>. The two resolvers of
  the web application test \<^verbatim>\<open>KAN_STORAGE_DIR\<close> first: with the driver unset, the endpoint
  set to \<^verbatim>\<open>http://minio:9000\<close> and the directory set to \<^verbatim>\<open>/data\<close>, both return \<^verbatim>\<open>fs\<close>.
\<close>

theorem C3_web_resolvers_prefer_storage_dir:
  "KAN_STORAGE_DRIVER both_env = None \<and> S3_ENDPOINT both_env = Some ''http://minio:9000''
   \<and> uploads_driver both_env = ''fs'' \<and> getStorageDriver_download both_env = ''fs''"
  by (simp add: both_env_def empty_env_def uploads_driver_def getStorageDriver_download_def)

text \<open>
  C4. The claim: the shared \<^verbatim>\<open>getStorageDriver\<close> and the local resolution of the upload
  file server and of the attachment downloader return the same driver in every
  environment. In the environment above the shared resolver returns \<^verbatim>\<open>s3\<close> and both
  local ones return \<^verbatim>\<open>fs\<close>.
\<close>

theorem C4_resolvers_disagree:
  "getStorageDriver both_env = ''s3''
   \<and> uploads_driver both_env \<noteq> getStorageDriver both_env
   \<and> getStorageDriver_download both_env \<noteq> getStorageDriver both_env"
  by (simp add: both_env_def empty_env_def getStorageDriver_def uploads_driver_def
      getStorageDriver_download_def)

section \<open>Health and statistics: results\<close>

text \<open>
  C5. The health endpoint answers \<^verbatim>\<open>ok\<close> exactly when the database check succeeds and
  storage is either not configured or passes its check, and \<^verbatim>\<open>error\<close> otherwise. Storage
  is not configured when the driver is \<^verbatim>\<open>fs\<close> and \<^verbatim>\<open>KAN_STORAGE_DIR\<close> is unset, or the driver
  is \<^verbatim>\<open>s3\<close> and one of \<^verbatim>\<open>S3_ENDPOINT\<close>, \<^verbatim>\<open>S3_ACCESS_KEY_ID\<close>, \<^verbatim>\<open>S3_SECRET_ACCESS_KEY\<close> is
  unset. A variable counts as unset when the code's test of it fails, that is when it is
  undefined or the empty string.
\<close>

theorem C5_health_status:
  "(status (health e cwd pr) = ''ok'' \<longleftrightarrow>
      checkDatabaseConnection pr
      \<and> (\<not> storageConfigured e \<or> checkStorageConnection e cwd pr))
   \<and> (status (health e cwd pr) = ''error'' \<longleftrightarrow>
      \<not> (checkDatabaseConnection pr
         \<and> (\<not> storageConfigured e \<or> checkStorageConnection e cwd pr)))
   \<and> (\<not> storageConfigured e \<longleftrightarrow>
      (getStorageDriver e = ''fs'' \<and> \<not> truthy (KAN_STORAGE_DIR e))
      \<or> (getStorageDriver e = ''s3''
         \<and> (\<not> truthy (S3_ENDPOINT e) \<or> \<not> truthy (S3_ACCESS_KEY_ID e)
            \<or> \<not> truthy (S3_SECRET_ACCESS_KEY e))))"
proof -
  have "getStorageDriver e = ''fs'' \<or> getStorageDriver e = ''s3''"
    by (rule getStorageDriver_range)
  then have "\<not> storageConfigured e \<longleftrightarrow>
      (getStorageDriver e = ''fs'' \<and> \<not> truthy (KAN_STORAGE_DIR e))
      \<or> (getStorageDriver e = ''s3''
         \<and> (\<not> truthy (S3_ENDPOINT e) \<or> \<not> truthy (S3_ACCESS_KEY_ID e)
            \<or> \<not> truthy (S3_SECRET_ACCESS_KEY e)))"
    by (auto simp: storageConfigured_def)
  moreover have "status (health e cwd pr) = ''ok'' \<longleftrightarrow>
      checkDatabaseConnection pr
      \<and> (\<not> storageConfigured e \<or> checkStorageConnection e cwd pr)"
    by (simp add: health_def Let_def)
  moreover have "status (health e cwd pr) = ''error'' \<longleftrightarrow>
      \<not> (checkDatabaseConnection pr
         \<and> (\<not> storageConfigured e \<or> checkStorageConnection e cwd pr))"
    by (simp add: health_def Let_def)
  ultimately show ?thesis by blast
qed

text \<open>
  At work: with the \<^verbatim>\<open>fs\<close> driver on \<^verbatim>\<open>/data\<close> and every probe passing the status is
  \<^verbatim>\<open>ok\<close>; when the database probe fails it is \<^verbatim>\<open>error\<close>.
\<close>

theorem C5_health_status_witness:
  "storageConfigured fs_env \<and> checkStorageConnection fs_env ''/app'' all_ok
   \<and> status (health fs_env ''/app'' all_ok) = ''ok''
   \<and> status (health fs_env ''/app'' (all_ok \<lparr> db_select_ok := False \<rparr>)) = ''error''"
proof -
  have drv: "getStorageDriver fs_env = ''fs''"
    by (simp add: getStorageDriver_def fs_env_def empty_env_def)
  have conf: "storageConfigured fs_env"
    by (simp add: storageConfigured_def drv) (simp add: fs_env_def empty_env_def)
  have chk: "checkStorageConnection fs_env ''/app'' p" if "fs_mkdir_access_ok p = (\<lambda>x. True)" for p
    using that by (simp add: checkStorageConnection_def drv) (simp add: fs_env_def empty_env_def)
  have db: "checkDatabaseConnection all_ok" "\<not> checkDatabaseConnection (all_ok \<lparr> db_select_ok := False \<rparr>)"
    by (simp_all add: checkDatabaseConnection_def all_ok_def)
  have c1: "checkStorageConnection fs_env ''/app'' all_ok"
    by (rule chk) (simp add: all_ok_def)
  from C5_health_status [of fs_env "''/app''" all_ok]
       C5_health_status [of fs_env "''/app''" "all_ok \<lparr> db_select_ok := False \<rparr>"]
       conf c1 db
  show ?thesis by blast
qed

lemma promise_all_Inr:
  "promise_all ps = Inr vs \<Longrightarrow>
     length vs = length ps \<and> (\<forall>i<length ps. ps ! i = Inr (vs ! i))"
proof (induction ps arbitrary: vs)
  case Nil
  then show ?case by simp
next
  case (Cons p ps)
  then show ?case
    by (cases p) (auto split: sum.splits simp: nth_Cons')
qed

text \<open>
  C7. In the answer of the statistics endpoint the field \<^verbatim>\<open>cardActivityLogs\<close> holds the
  result of \<^verbatim>\<open>memberRepo.getActiveCount\<close>: the fifteenth name of the array pattern is bound
  to the fifteenth of the sixteen queries and the sixteenth,
  \<^verbatim>\<open>cardActivityRepo.getCount\<close>, is dropped. So \<^verbatim>\<open>cardActivityLogs\<close> equals \<^verbatim>\<open>activeMembers\<close>
  for every state of the database.
\<close>

theorem C7_cardActivityLogs_is_activeMembers:
  assumes "stats r db = Inr resp"
  shows "cardActivityLogs resp = activeMembers resp
         \<and> memberRepo_getActiveCount r db = Inr (cardActivityLogs resp)
         \<and> length (stats_queries r db) = 16
         \<and> stats_queries r db ! 15 = cardActivityRepo_getCount r db"
proof -
  from assms obtain counts where pa: "promise_all (stats_queries r db) = Inr counts"
    and resp: "cardActivityLogs resp = counts ! 14" "activeMembers resp = counts ! 11"
    by (auto simp: stats_def split: sum.splits)
  have len: "length (stats_queries r db) = 16"
    by (simp add: stats_queries_def)
  from promise_all_Inr [OF pa] len
  have "stats_queries r db ! 14 = Inr (counts ! 14)"
       "stats_queries r db ! 11 = Inr (counts ! 11)"
    by simp_all
  then have "memberRepo_getActiveCount r db = Inr (counts ! 14)"
            "memberRepo_getActiveCount r db = Inr (counts ! 11)"
    by (simp_all add: stats_queries_def)
  moreover have "stats_queries r db ! 15 = cardActivityRepo_getCount r db"
    by (simp add: stats_queries_def)
  ultimately show ?thesis using resp len by simp
qed

text \<open>
  At work: with 100 card activities and 7 active members the answer reports 7 as
  \<^verbatim>\<open>cardActivityLogs\<close>.
\<close>

theorem C7_cardActivityLogs_is_activeMembers_witness:
  "stats demo_repos 0 = Inr demo_stats
   \<and> cardActivityLogs demo_stats = activeMembers demo_stats
   \<and> cardActivityLogs demo_stats = 7
   \<and> cardActivityRepo_getCount demo_repos 0 = Inr 100"
proof -
  have h: "stats demo_repos 0 = Inr demo_stats"
    by (simp add: stats_def stats_queries_def demo_repos_def demo_stats_def)
  from C7_cardActivityLogs_is_activeMembers [OF h] h show ?thesis
    by (simp add: demo_repos_def demo_stats_def)
qed

section \<open>Path resolution: results\<close>

text \<open>
  A resolved path is \<^verbatim>\<open>/\<close> followed by clean segments joined by \<^verbatim>\<open>/\<close>. On such paths the
  test \<^verbatim>\<open>p.startsWith(root + "/")\<close> on strings says that the segments of the root are a
  proper initial part of the segments of \<^verbatim>\<open>p\<close>.
\<close>

lemma splitOn_nonempty [simp]: "splitOn c xs \<noteq> []"
  by (induction xs) (auto split: list.splits)

lemma splitOn_pieces: "s \<in> set (splitOn c xs) \<Longrightarrow> c \<notin> set s"
  by (induction xs arbitrary: s) (auto split: list.splits if_splits)

lemma splitOn_append:
  "splitOn c (a @ c # b) = splitOn c a @ splitOn c b"
  by (induction a) (auto split: list.splits)

lemma splitOn_free: "c \<notin> set s \<Longrightarrow> splitOn c s = [s]"
  by (induction s) auto

lemma splitOn_joinWith:
  "\<forall>s\<in>set ps. c \<notin> set s \<Longrightarrow> ps \<noteq> [] \<Longrightarrow> splitOn c (joinWith [c] ps) = ps"
proof (induction "[c]" ps rule: joinWith.induct)
  case 1
  then show ?case by simp
next
  case (2 x)
  then show ?case by (simp add: splitOn_free)
next
  case (3 x y ys)
  then show ?case by (simp add: splitOn_append splitOn_free)
qed

lemma normalizeSegs_clean:
  "\<forall>s\<in>set res. cleanSeg s \<Longrightarrow> \<forall>s\<in>set ss. CHR ''/'' \<notin> set s
   \<Longrightarrow> \<forall>s\<in>set (normalizeSegs res ss). cleanSeg s"
proof (induction ss arbitrary: res)
  case Nil
  then show ?case by simp
next
  case (Cons s ss)
  show ?case
  proof (cases "s = [] \<or> s = ''.''")
    case True
    with Cons show ?thesis by auto
  next
    case False
    show ?thesis
    proof (cases "s = ''..''")
      case True
      have "\<forall>s\<in>set (butlast res). cleanSeg s"
        using Cons.prems(1) by (auto dest: in_set_butlastD)
      moreover have "\<forall>s\<in>set ss. CHR ''/'' \<notin> set s" using Cons.prems(2) by simp
      ultimately have "\<forall>s\<in>set (normalizeSegs (butlast res) ss). cleanSeg s"
        by (rule Cons.IH)
      with True show ?thesis by simp
    next
      case F2: False
      have "\<forall>s\<in>set (res @ [s]). cleanSeg s"
        using Cons.prems False F2 by (auto simp: cleanSeg_def)
      moreover have "\<forall>s\<in>set ss. CHR ''/'' \<notin> set s" using Cons.prems(2) by simp
      ultimately have "\<forall>s\<in>set (normalizeSegs (res @ [s]) ss). cleanSeg s"
        by (rule Cons.IH)
      with False F2 show ?thesis by simp
    qed
  qed
qed

lemma normalizeSegs_append:
  "normalizeSegs res (xs @ ys) = normalizeSegs (normalizeSegs res xs) ys"
  by (induction xs arbitrary: res) auto


lemma resolvedSegs_clean: "\<forall>s\<in>set (resolvedSegs cwd args). cleanSeg s"
  unfolding resolvedSegs_def
  by (rule normalizeSegs_clean) (auto dest: splitOn_pieces)

lemma path_resolve_segs: "path_resolve cwd args = CHR ''/'' # joinWith ''/'' (resolvedSegs cwd args)"
  by (simp add: path_resolve_def resolvedSegs_def)

lemma pathSegments_render:
  assumes "\<forall>s\<in>set ps. cleanSeg s"
  shows "pathSegments (CHR ''/'' # joinWith ''/'' ps) = ps"
proof (cases "ps = []")
  case True
  then show ?thesis by (simp add: pathSegments_def)
next
  case False
  have "\<forall>s\<in>set ps. CHR ''/'' \<notin> set s" using assms by (simp add: cleanSeg_def)
  then have "splitOn CHR ''/'' (joinWith ''/'' ps) = ps"
    using False by (rule splitOn_joinWith)
  moreover have "filter (\<lambda>s. s \<noteq> []) ps = ps"
    using assms by (auto simp: cleanSeg_def filter_id_conv)
  ultimately show ?thesis by (simp add: pathSegments_def)
qed

lemma pathSegments_path_resolve [simp]:
  "pathSegments (path_resolve cwd args) = resolvedSegs cwd args"
  by (simp add: path_resolve_segs pathSegments_render resolvedSegs_clean)

lemma pathSegments_append_slash:
  "pathSegments (a @ CHR ''/'' # b) = pathSegments a @ pathSegments b"
  by (simp add: pathSegments_def splitOn_append)

lemma inside_self: "inside (path_resolve cwd args) (path_resolve cwd args)"
  using resolvedSegs_clean[of cwd args] by (auto simp: inside_def cleanSeg_def)

lemma guard_below:
  assumes "startsWith (path_resolve cwd as) (path_resolve cwd bs @ ''/'')"
  shows "below (path_resolve cwd bs) (path_resolve cwd as)"
proof -
  let ?p = "path_resolve cwd as" and ?r = "path_resolve cwd bs"
  from assms have "take (length (?r @ ''/'')) ?p = ?r @ ''/''" by (simp add: startsWith_def)
  then have "?p = (?r @ ''/'') @ drop (length (?r @ ''/'')) ?p"
    by (metis append_take_drop_id)
  then obtain zs where p: "?p = ?r @ CHR ''/'' # zs" by auto
  have "pathSegments ?p = pathSegments (?r @ CHR ''/'' # zs)"
    using p by (rule arg_cong)
  then have segs: "resolvedSegs cwd as = resolvedSegs cwd bs @ pathSegments zs"
    by (simp add: pathSegments_append_slash)
  have "pathSegments zs \<noteq> []"
  proof
    assume "pathSegments zs = []"
    with segs have "resolvedSegs cwd as = resolvedSegs cwd bs" by simp
    then have "?p = ?r" by (simp add: path_resolve_segs)
    with p show False by simp
  qed
  with segs have "length (resolvedSegs cwd bs) < length (resolvedSegs cwd as)"
    "take (length (resolvedSegs cwd bs)) (resolvedSegs cwd as) = resolvedSegs cwd bs"
    by simp_all
  moreover have "''..'' \<notin> set (resolvedSegs cwd as)" "''.'' \<notin> set (resolvedSegs cwd as)"
    using resolvedSegs_clean[of cwd as] by (auto simp: cleanSeg_def)
  ultimately show ?thesis by (simp add: below_def inside_def)
qed


lemma joinWith_append:
  "xs \<noteq> [] \<Longrightarrow> ys \<noteq> [] \<Longrightarrow> joinWith sep (xs @ ys) = joinWith sep xs @ sep @ joinWith sep ys"
proof (induction sep xs rule: joinWith.induct)
  case (1 sep)
  then show ?case by simp
next
  case (2 sep x)
  then show ?case by (cases ys) simp_all
next
  case (3 sep x y zs)
  then show ?case by simp
qed

lemma inside_guard:
  assumes "inside (path_resolve cwd bs) (path_resolve cwd as)" and "resolvedSegs cwd bs \<noteq> []"
  shows "startsWith (path_resolve cwd as) (path_resolve cwd bs @ ''/'')
         \<or> path_resolve cwd as = path_resolve cwd bs"
proof -
  let ?ps = "resolvedSegs cwd as" and ?rs = "resolvedSegs cwd bs"
  from assms(1) have "take (length ?rs) ?ps = ?rs" by (simp add: inside_def)
  then have ps: "?ps = ?rs @ drop (length ?rs) ?ps" by (metis append_take_drop_id)
  show ?thesis
  proof (cases "drop (length ?rs) ?ps = []")
    case True
    with ps have "?ps = ?rs" by simp
    then show ?thesis by (simp add: path_resolve_segs)
  next
    case False
    have "joinWith ''/'' ?ps = joinWith ''/'' (?rs @ drop (length ?rs) ?ps)"
      using ps by simp
    also have "\<dots> = joinWith ''/'' ?rs @ ''/'' @ joinWith ''/'' (drop (length ?rs) ?ps)"
      using assms(2) False by (rule joinWith_append)
    finally have "path_resolve cwd as =
        (path_resolve cwd bs @ ''/'') @ joinWith ''/'' (drop (length ?rs) ?ps)"
      by (simp add: path_resolve_segs)
    then have "startsWith (path_resolve cwd as) (path_resolve cwd bs @ ''/'')"
      unfolding startsWith_def by (metis append_eq_conv_conj)
    then show ?thesis ..
  qed
qed

lemma resolveLoop_suffix:
  "\<exists>pre. resolveLoop ps rp ra = pre @ rp \<and> (pre = [] \<or> last pre = CHR ''/'')"
proof (induction ps arbitrary: rp ra)
  case Nil
  then show ?case by simp
next
  case (Cons p ps)
  show ?case
  proof (cases "ra \<or> p = []")
    case True
    then show ?thesis using Cons.IH[of rp ra] by auto
  next
    case False
    from Cons.IH[of "p @ ''/'' @ rp" "hd p = CHR ''/''"]
    obtain pre where "resolveLoop ps (p @ ''/'' @ rp) (hd p = CHR ''/'') = pre @ p @ ''/'' @ rp"
      by auto
    then have "resolveLoop (p # ps) rp ra = (pre @ p @ ''/'') @ rp"
      using False by simp
    moreover have "last (pre @ p @ ''/'') = CHR ''/''" by simp
    ultimately show ?thesis by blast
  qed
qed

lemma uploadsRoot_segs: "resolvedSegs cwd [d, ''uploads''] \<noteq> []"
proof -
  obtain pre where pre: "resolveLoop [d, cwd] ''uploads/'' False = pre @ ''uploads/''"
    and lst: "pre = [] \<or> last pre = CHR ''/''"
    using resolveLoop_suffix[of "[d, cwd]" "''uploads/''" False] by blast
  have "\<exists>xs. splitOn CHR ''/'' (pre @ ''uploads/'') = xs @ [''uploads'', []]"
  proof (cases "pre = []")
    case True
    then have "splitOn CHR ''/'' (pre @ ''uploads/'') = [] @ [''uploads'', []]" by simp
    then show ?thesis by blast
  next
    case False
    with lst have "pre = butlast pre @ ''/''" by (metis append_butlast_last_id)
    then have "pre @ ''uploads/'' = butlast pre @ CHR ''/'' # ''uploads/''"
      by (metis append.assoc append_Cons append_Nil)
    then have "splitOn CHR ''/'' (pre @ ''uploads/'') =
        splitOn CHR ''/'' (butlast pre) @ splitOn CHR ''/'' ''uploads/''"
      by (simp only: splitOn_append)
    also have "splitOn CHR ''/'' ''uploads/'' = [''uploads'', []]" by simp
    finally show ?thesis by blast
  qed
  then obtain xs where xs: "splitOn CHR ''/'' (pre @ ''uploads/'') = xs @ [''uploads'', []]" ..
  have "resolvedSegs cwd [d, ''uploads''] = normalizeSegs [] (splitOn CHR ''/'' (pre @ ''uploads/''))"
    using pre by (simp add: resolvedSegs_def)
  also have "\<dots> = normalizeSegs [] xs @ [''uploads'']"
    by (simp add: xs normalizeSegs_append)
  finally show ?thesis by simp
qed

lemma root_guard_below:
  "startsWith (path_resolve cwd as) (uploadsRoot cwd d @ ''/'')
   \<Longrightarrow> below (uploadsRoot cwd d) (path_resolve cwd as)"
  unfolding uploadsRoot_def by (rule guard_below)

lemma root_inside_self: "inside (uploadsRoot cwd d) (uploadsRoot cwd d)"
  unfolding uploadsRoot_def by (rule inside_self)

lemma root_inside_guard:
  "inside (uploadsRoot cwd d) (path_resolve cwd as)
   \<Longrightarrow> startsWith (path_resolve cwd as) (uploadsRoot cwd d @ ''/'')
       \<or> path_resolve cwd as = uploadsRoot cwd d"
  unfolding uploadsRoot_def by (simp add: inside_guard uploadsRoot_segs)

lemma below_inside: "below r p \<Longrightarrow> inside r p"
  by (simp add: below_def)

section \<open>Handlers and paths: results\<close>

text \<open>
  Every path a handler or \<^verbatim>\<open>deleteObject\<close> hands to the filesystem has passed the prefix
  test, so it lies below (for \<^verbatim>\<open>deleteObject\<close>: inside) the uploads root; a resolution
  that does not is answered before any call to the filesystem.
\<close>

lemma touches_only_Nil [simp]: "touches_only P []"
  by (simp add: touches_only_def)

lemma touches_only_Cons [simp]:
  "touches_only P (eff # effs) \<longleftrightarrow>
     (case effect_path eff of None \<Rightarrow> True | Some p \<Rightarrow> P p) \<and> touches_only P effs"
  by (simp add: touches_only_def)

lemma uploads_handler_effects:
  "touches_only (underRoot e cwd) (snd (uploads_handler e cwd stat req))"
  by (auto simp: uploads_handler_def underRoot_def Let_def dest: root_guard_below
      split: option.splits list.splits stat_result.splits)

lemma serveLocal_effects:
  "touches_only (below (uploadsRoot cwd d)) (snd (serveLocal cwd dec stat d up pu))"
  by (auto simp: serveLocal_def Let_def dest: root_guard_below
      split: option.splits list.splits stat_result.splits)

lemma fetchFallback_effects: "touches_only P (snd (fetchFallback fetch pu))"
  by (simp add: fetchFallback_def split: fetch_result.splits)

lemma download_handler_effects:
  "touches_only (underRoot e cwd) (snd (download_handler trim e cwd parseURL dec stat fetch req))"
proof -
  have "touches_only (underRoot e cwd) (snd (serveLocal cwd dec stat d up pu))"
    if "KAN_STORAGE_DIR e = Some d" for d up pu
    using serveLocal_effects[of cwd d dec stat up pu] that
    by (simp add: underRoot_def [abs_def])
  then show ?thesis
    by (simp add: download_handler_def Let_def fetchFallback_effects
        split: option.splits query_value.splits)
qed

lemma deleteObject_effects:
  "touches_only (withinRoot e cwd) (snd (deleteObject e cwd unlink s3Delete bucket key))"
  by (auto simp: deleteObject_def withinRoot_def Let_def root_inside_self
      dest: root_guard_below below_inside split: option.splits)

lemma uploads_handler_rejects:
  assumes "req_method req = ''GET'' \<or> req_method req = ''HEAD''"
    and "uploads_driver e = ''fs''" and "KAN_STORAGE_DIR e = Some d" and "d \<noteq> []"
    and "query req ''path'' = QArray (bucket # keyParts)"
    and "\<not> below (uploadsRoot cwd d) (path_resolve cwd (uploadsRoot cwd d # bucket # keyParts))"
  shows "\<exists>msg. uploads_handler e cwd stat req = (Json 400 msg, [])"
  using assms by (auto simp: uploads_handler_def Let_def dest: root_guard_below)

lemma serveLocal_rejects:
  assumes "uploadParts dec up pu = Some (bucket # keyParts)"
    and "\<not> below (uploadsRoot cwd d) (path_resolve cwd (uploadsRoot cwd d # bucket # keyParts))"
  shows "\<exists>msg. serveLocal cwd dec stat d up pu = (Json 400 msg, [])"
  using assms by (auto simp: serveLocal_def Let_def dest: root_guard_below)

lemma download_handler_rejects:
  assumes "req_method req = ''GET''" and "query req ''url'' = QString u"
    and "parseURL u = Some pu"
    and "getStorageDriver_download e = ''fs''" and "KAN_STORAGE_DIR e = Some d" and "d \<noteq> []"
    and "normalizeUploadsPath trim (NEXT_PUBLIC_UPLOADS_PATH e) = up" and "up \<noteq> []"
    and "startsWith (pathname pu) (up @ ''/'')"
    and "uploadParts dec up pu = Some (bucket # keyParts)"
    and "\<not> below (uploadsRoot cwd d) (path_resolve cwd (uploadsRoot cwd d # bucket # keyParts))"
  shows "\<exists>msg. download_handler trim e cwd parseURL dec stat fetch req = (Json 400 msg, [])"
  using assms serveLocal_rejects[OF assms(10,11), of stat]
  by (auto simp: download_handler_def Let_def)

lemma deleteObject_rejects:
  assumes "getStorageDriver e = ''fs''" and "KAN_STORAGE_DIR e = Some d" and "d \<noteq> []"
    and "\<not> inside (uploadsRoot cwd d)
           (path_resolve cwd (uploadsRoot cwd d # bucket # filter (\<lambda>s. s \<noteq> []) (splitOn CHR ''/'' key)))"
  shows "deleteObject e cwd unlink s3Delete bucket key = (Inl (Error ''Invalid storage key''), [])"
  using assms root_inside_self[of cwd d]
  by (auto simp: deleteObject_def Let_def dest: root_guard_below below_inside)

text \<open>
  C1, as amended. In filesystem mode the path resolved from the bucket and key segments
  of the client stays under the uploads root \<^verbatim>\<open>path.resolve(KAN_STORAGE_DIR, "uploads")\<close>:
  every path the upload file server and the attachment downloader hand to the filesystem
  is a descendant of the root, and every path \<^verbatim>\<open>deleteObject\<close> unlinks is the root itself
  or a descendant of it. A resolution that leaves the root is rejected before any
  filesystem access: with status 400 by the two handlers, which reject the root itself
  too, and with the error \<^verbatim>\<open>Invalid storage key\<close> by \<^verbatim>\<open>deleteObject\<close>.
\<close>

theorem C1_resolved_paths_stay_under_uploads_root:
  "touches_only (underRoot e cwd) (snd (uploads_handler e cwd stat req))
   \<and> touches_only (underRoot e cwd)
        (snd (download_handler trim e cwd parseURL dec stat fetch dreq))
   \<and> touches_only (withinRoot e cwd) (snd (deleteObject e cwd unlink s3Delete b k))
   \<and> (KAN_STORAGE_DIR e = Some d \<and> d \<noteq> []
        \<and> \<not> below (uploadsRoot cwd d)
               (path_resolve cwd (uploadsRoot cwd d # bucket # keyParts)) \<longrightarrow>
        ((req_method req = ''GET'' \<or> req_method req = ''HEAD'')
          \<and> uploads_driver e = ''fs'' \<and> query req ''path'' = QArray (bucket # keyParts) \<longrightarrow>
          (\<exists>msg. uploads_handler e cwd stat req = (Json 400 msg, [])))
        \<and> (req_method dreq = ''GET'' \<and> query dreq ''url'' = QString u
            \<and> parseURL u = Some pu \<and> getStorageDriver_download e = ''fs''
            \<and> normalizeUploadsPath trim (NEXT_PUBLIC_UPLOADS_PATH e) = up \<and> up \<noteq> []
            \<and> startsWith (pathname pu) (up @ ''/'')
            \<and> uploadParts dec up pu = Some (bucket # keyParts) \<longrightarrow>
            (\<exists>msg. download_handler trim e cwd parseURL dec stat fetch dreq = (Json 400 msg, []))))
   \<and> (getStorageDriver e = ''fs'' \<and> KAN_STORAGE_DIR e = Some d \<and> d \<noteq> []
        \<and> \<not> inside (uploadsRoot cwd d)
               (path_resolve cwd
                  (uploadsRoot cwd d # b # filter (\<lambda>s. s \<noteq> []) (splitOn CHR ''/'' k))) \<longrightarrow>
        deleteObject e cwd unlink s3Delete b k = (Inl (Error ''Invalid storage key''), []))"
proof (intro conjI impI)
  show "touches_only (underRoot e cwd) (snd (uploads_handler e cwd stat req))"
    by (rule uploads_handler_effects)
  show "touches_only (underRoot e cwd)
          (snd (download_handler trim e cwd parseURL dec stat fetch dreq))"
    by (rule download_handler_effects)
  show "touches_only (withinRoot e cwd) (snd (deleteObject e cwd unlink s3Delete b k))"
    by (rule deleteObject_effects)
next
  assume "KAN_STORAGE_DIR e = Some d \<and> d \<noteq> []
        \<and> \<not> below (uploadsRoot cwd d)
               (path_resolve cwd (uploadsRoot cwd d # bucket # keyParts))"
    and "(req_method req = ''GET'' \<or> req_method req = ''HEAD'')
          \<and> uploads_driver e = ''fs'' \<and> query req ''path'' = QArray (bucket # keyParts)"
  then show "\<exists>msg. uploads_handler e cwd stat req = (Json 400 msg, [])"
    by (intro uploads_handler_rejects [where d = d and bucket = bucket and keyParts = keyParts])
       simp_all
next
  assume "KAN_STORAGE_DIR e = Some d \<and> d \<noteq> []
        \<and> \<not> below (uploadsRoot cwd d)
               (path_resolve cwd (uploadsRoot cwd d # bucket # keyParts))"
    and "req_method dreq = ''GET'' \<and> query dreq ''url'' = QString u
            \<and> parseURL u = Some pu \<and> getStorageDriver_download e = ''fs''
            \<and> normalizeUploadsPath trim (NEXT_PUBLIC_UPLOADS_PATH e) = up \<and> up \<noteq> []
            \<and> startsWith (pathname pu) (up @ ''/'')
            \<and> uploadParts dec up pu = Some (bucket # keyParts)"
  then show "\<exists>msg. download_handler trim e cwd parseURL dec stat fetch dreq = (Json 400 msg, [])"
    by (intro download_handler_rejects [where d = d and bucket = bucket
          and keyParts = keyParts and u = u and pu = pu and up = up]) simp_all
next
  assume "getStorageDriver e = ''fs'' \<and> KAN_STORAGE_DIR e = Some d \<and> d \<noteq> []
        \<and> \<not> inside (uploadsRoot cwd d)
               (path_resolve cwd
                  (uploadsRoot cwd d # b # filter (\<lambda>s. s \<noteq> []) (splitOn CHR ''/'' k)))"
  then show "deleteObject e cwd unlink s3Delete b k = (Inl (Error ''Invalid storage key''), [])"
    by (intro deleteObject_rejects [where d = d]) simp_all
qed

text \<open>Evaluations used by the examples.\<close>

lemma uploadsRoot_example: "uploadsRoot ''/app'' ''/data'' = ''/data/uploads''"
  by (simp add: uploadsRoot_def path_resolve_def)

lemma resolve_parent_example: "path_resolve ''/app'' [''/data/uploads'', ''..'', ''x''] = ''/data/x''"
  by (simp add: path_resolve_def)

lemma resolve_encoded_example: "path_resolve ''/app'' [''/data/uploads'', ''avatars'', ''../../secret''] = ''/data/secret''"
  by (simp add: path_resolve_def)

lemma outside_examples: "\<not> inside ''/data/uploads'' ''/data/x''" "\<not> inside ''/data/uploads'' ''/data/secret''"
  by (simp_all add: inside_def pathSegments_def)

lemma uploads_handler_example: "uploads_handler fs_env ''/app'' no_files (path_request ''GET'' [''..'', ''x''])
   = (Json 400 ''Invalid path'', [])"
  by (simp add: uploads_handler_def uploads_driver_def fs_env_def empty_env_def path_request_def
     bucketOk_def isBucketChar_def badKey_def uploadsRoot_example resolve_parent_example startsWith_def)

lemma download_handler_example: "download_handler trimAscii web_env ''/app'' demo_parseURL demo_decode no_files forbidden
      (url_request ''GET'' ''https://kan.example/uploads/avatars/..%2F..%2Fsecret'')
   = (Json 400 ''Invalid path'', [])"
  by (simp add: download_handler_def getStorageDriver_download_def web_env_def fs_env_def empty_env_def
     url_request_def demo_parseURL_def getAllowedOrigins_def
     normalizeUploadsPath_def trimAscii_def isSpace_def startsWith_def endsWith_def
     serveLocal_def uploadParts_def demo_decode_def
     bucketOk_def isBucketChar_def badKey_def uploadsRoot_example resolve_encoded_example)

lemma deleteObject_example: "deleteObject fs_env ''/app'' enoent s3_unused ''..'' ''x'' = (Inl (Error ''Invalid storage key''), [])"
  by (simp add: deleteObject_def getStorageDriver_def fs_env_def empty_env_def uploadsRoot_example resolve_parent_example startsWith_def)


lemma normalizeUploadsPath_default: "normalizeUploadsPath trimAscii None = ''/uploads''"
  by (simp add: normalizeUploadsPath_def trimAscii_def startsWith_def endsWith_def)

lemma uploadParts_example: "uploadParts demo_decode ''/uploads'' 
   \<lparr> protocol = ''https:'', origin = ''https://kan.example'',
               pathname = ''/uploads/avatars/..%2F..%2Fsecret'' \<rparr> = Some [''avatars'', ''../../secret'']"
  by (simp add: uploadParts_def demo_decode_def)

text \<open>
  At work: the key segment \<^verbatim>\<open>../../secret\<close> under the bucket \<^verbatim>\<open>avatars\<close> resolves to
  \<^verbatim>\<open>/data/secret\<close>, outside \<^verbatim>\<open>/data/uploads\<close>, and both handlers answer 400 without
  touching the disk; \<^verbatim>\<open>deleteObject("..", "x")\<close> resolves to \<^verbatim>\<open>/data/x\<close> and raises.
\<close>

theorem C1_resolved_paths_stay_under_uploads_root_witness:
  "KAN_STORAGE_DIR web_env = Some ''/data''
   \<and> path_resolve ''/app'' [uploadsRoot ''/app'' ''/data'', ''avatars'', ''../../secret'']
       = ''/data/secret''
   \<and> \<not> below (uploadsRoot ''/app'' ''/data'') ''/data/secret''
   \<and> (\<exists>msg. uploads_handler web_env ''/app'' no_files
          (path_request ''GET'' [''avatars'', ''../../secret'']) = (Json 400 msg, []))
   \<and> (\<exists>msg. download_handler trimAscii web_env ''/app'' demo_parseURL demo_decode no_files forbidden
          (url_request ''GET'' ''https://kan.example/uploads/avatars/..%2F..%2Fsecret'')
        = (Json 400 msg, []))
   \<and> path_resolve ''/app'' [uploadsRoot ''/app'' ''/data'', ''..'', ''x''] = ''/data/x''
   \<and> \<not> inside (uploadsRoot ''/app'' ''/data'') ''/data/x''
   \<and> deleteObject web_env ''/app'' enoent s3_unused ''..'' ''x''
       = (Inl (Error ''Invalid storage key''), [])"
proof -
  have dir: "KAN_STORAGE_DIR web_env = Some ''/data''"
    by (simp add: web_env_def fs_env_def empty_env_def)
  have p1: "path_resolve ''/app'' [uploadsRoot ''/app'' ''/data'', ''avatars'', ''../../secret'']
       = ''/data/secret''"
    by (simp add: uploadsRoot_example resolve_encoded_example)
  have p2: "path_resolve ''/app'' [uploadsRoot ''/app'' ''/data'', ''..'', ''x''] = ''/data/x''"
    by (simp add: uploadsRoot_example resolve_parent_example)
  have nb: "\<not> below (uploadsRoot ''/app'' ''/data'') ''/data/secret''"
    by (simp add: uploadsRoot_example below_def outside_examples)
  have ni: "\<not> inside (uploadsRoot ''/app'' ''/data'') ''/data/x''"
    by (simp add: uploadsRoot_example outside_examples)
  have drv: "uploads_driver web_env = ''fs''" "getStorageDriver_download web_env = ''fs''"
    "getStorageDriver web_env = ''fs''"
    by (simp_all add: uploads_driver_def getStorageDriver_download_def getStorageDriver_def
        web_env_def fs_env_def empty_env_def)
  have up: "normalizeUploadsPath trimAscii (NEXT_PUBLIC_UPLOADS_PATH web_env) = ''/uploads''"
    by (simp add: web_env_def fs_env_def empty_env_def normalizeUploadsPath_default)
  have rq: "req_method (path_request ''GET'' [''avatars'', ''../../secret'']) = ''GET''"
    "query (path_request ''GET'' [''avatars'', ''../../secret'']) ''path''
       = QArray [''avatars'', ''../../secret'']"
    by (simp_all add: path_request_def)
  have dq: "req_method (url_request ''GET'' ''https://kan.example/uploads/avatars/..%2F..%2Fsecret'') = ''GET''"
    "query (url_request ''GET'' ''https://kan.example/uploads/avatars/..%2F..%2Fsecret'') ''url''
       = QString ''https://kan.example/uploads/avatars/..%2F..%2Fsecret''"
    by (simp_all add: url_request_def)
  have pu: "demo_parseURL ''https://kan.example/uploads/avatars/..%2F..%2Fsecret'' =
      Some \<lparr> protocol = ''https:'', origin = ''https://kan.example'',
               pathname = ''/uploads/avatars/..%2F..%2Fsecret'' \<rparr>"
    by (simp add: demo_parseURL_def)
  have sw: "startsWith (pathname \<lparr> protocol = ''https:'', origin = ''https://kan.example'',
               pathname = ''/uploads/avatars/..%2F..%2Fsecret'' \<rparr>) (''/uploads'' @ ''/'')"
    by (simp add: startsWith_def)
  note inst = C1_resolved_paths_stay_under_uploads_root [where trim = trimAscii and e = web_env and cwd = "''/app''" and stat = no_files
      and req = "path_request ''GET'' [''avatars'', ''../../secret'']"
      and parseURL = demo_parseURL and dec = demo_decode and fetch = forbidden
      and dreq = "url_request ''GET'' ''https://kan.example/uploads/avatars/..%2F..%2Fsecret''"
      and unlink = enoent and s3Delete = s3_unused and b = "''..''" and k = "''x''"
      and d = "''/data''" and bucket = "''avatars''" and keyParts = "[''../../secret'']"
      and u = "''https://kan.example/uploads/avatars/..%2F..%2Fsecret''"
      and pu = "\<lparr> protocol = ''https:'', origin = ''https://kan.example'',
               pathname = ''/uploads/avatars/..%2F..%2Fsecret'' \<rparr>"
      and up = "''/uploads''"]
  have k: "filter (\<lambda>s. s \<noteq> []) (splitOn CHR ''/'' ''x'') = [''x'']" by simp
  from inst dir p1 p2 nb ni drv up rq dq pu sw uploadParts_example k show ?thesis
    by simp
qed

lemma badKey_nonempty: "badKey keyParts \<Longrightarrow> keyParts \<noteq> []"
  by (auto simp: badKey_def)

lemma badKey_iff:
  "badKey keyParts \<longleftrightarrow> [] \<in> set keyParts \<or> ''.'' \<in> set keyParts \<or> ''..'' \<in> set keyParts"
  by (auto simp: badKey_def list_ex_iff)

text \<open>
  The claim as stated (a descendant in every case) fails for \<^verbatim>\<open>deleteObject\<close>, whose
  guard admits \<^verbatim>\<open>candidate === uploadsRoot\<close>: the bucket \<^verbatim>\<open>avatars\<close> with the key \<^verbatim>\<open>..\<close>, and
  the empty bucket with the empty key, resolve to the root, which is not below itself,
  and \<^verbatim>\<open>unlink\<close> is called on it.
\<close>

theorem C1_deleteObject_unlinks_the_root:
  "uploadsRoot ''/app'' ''/data'' = ''/data/uploads''
   \<and> \<not> below ''/data/uploads'' ''/data/uploads''
   \<and> deleteObject fs_env ''/app'' enoent s3_unused ''avatars'' ''..''
       = (Inr (), [Unlink ''/data/uploads''])
   \<and> deleteObject fs_env ''/app'' enoent s3_unused [] []
       = (Inr (), [Unlink ''/data/uploads''])"
proof (intro conjI)
  show "uploadsRoot ''/app'' ''/data'' = ''/data/uploads''" by (rule uploadsRoot_example)
  show "\<not> below ''/data/uploads'' ''/data/uploads''"
    by (simp add: below_def)
  have drv: "getStorageDriver fs_env = ''fs''" "KAN_STORAGE_DIR fs_env = Some ''/data''"
    by (simp_all add: getStorageDriver_def fs_env_def empty_env_def)
  have r1: "path_resolve ''/app'' [''/data/uploads'', ''avatars'', ''..''] = ''/data/uploads''"
    by (simp add: path_resolve_def)
  have r2: "path_resolve ''/app'' [''/data/uploads'', []] = ''/data/uploads''"
    by (simp add: path_resolve_def)
  show "deleteObject fs_env ''/app'' enoent s3_unused ''avatars'' ''..''
       = (Inr (), [Unlink ''/data/uploads''])"
    by (simp add: deleteObject_def drv uploadsRoot_example r1 enoent_def)
  show "deleteObject fs_env ''/app'' enoent s3_unused [] []
       = (Inr (), [Unlink ''/data/uploads''])"
    by (simp add: deleteObject_def drv uploadsRoot_example r2 enoent_def)
qed

text \<open>
  C2, as amended. A request to the upload file server whose path query holds, after the
  bucket, an element that is \<^verbatim>\<open>..\<close>, \<^verbatim>\<open>.\<close> or the empty string never reaches the
  filesystem. It is answered 400 when the method is GET or HEAD, the driver is \<^verbatim>\<open>fs\<close> and
  the storage directory is configured; the earlier gates answer 405 for another method,
  404 for another driver and 500 for a missing storage directory. The elements are the
  ones the router hands over: an element that holds a slash is not split again.
\<close>

theorem C2_bad_key_never_reaches_filesystem:
  assumes "query req ''path'' = QArray (bucket # keyParts)"
    and "[] \<in> set keyParts \<or> ''.'' \<in> set keyParts \<or> ''..'' \<in> set keyParts"
  shows "uploads_handler e cwd stat req =
     (if req_method req \<noteq> ''GET'' \<and> req_method req \<noteq> ''HEAD'' then
        Json 405 ''Method not allowed''
      else if uploads_driver e \<noteq> ''fs'' then Json 404 ''Not found''
      else if \<not> truthy (KAN_STORAGE_DIR e) then Json 500 ''KAN_STORAGE_DIR not configured''
      else Json 400 (if bucket = [] then ''Invalid path''
                     else if \<not> bucketOk bucket then ''Invalid bucket''
                     else ''Invalid key''),
      [])"
proof -
  from assms(2) have bad: "badKey keyParts" by (simp only: badKey_iff)
  then have "keyParts \<noteq> []" by (rule badKey_nonempty)
  with assms(1) bad show ?thesis
    by (auto simp: uploads_handler_def Let_def split: option.splits)
qed

text \<open>At work: \<^verbatim>\<open>GET avatars/../x\<close> in filesystem mode is answered 400, Invalid key.\<close>

theorem C2_bad_key_never_reaches_filesystem_witness:
  "''..'' \<in> set [''..'', ''x'']
   \<and> uploads_handler fs_env ''/app'' no_files (path_request ''GET'' [''avatars'', ''..'', ''x''])
       = (Json 400 ''Invalid key'', [])"
proof -
  have bk: "[] \<in> set [''..'', ''x''] \<or> ''.'' \<in> set [''..'', ''x'']
      \<or> ''..'' \<in> set [''..'', ''x'']" by simp
  have q: "query (path_request ''GET'' [''avatars'', ''..'', ''x'']) ''path''
      = QArray (''avatars'' # [''..'', ''x''])"
    by (simp add: path_request_def)
  have "bucketOk ''avatars''" by (simp add: bucketOk_def isBucketChar_def)
  moreover have "uploads_driver fs_env = ''fs''" "truthy (KAN_STORAGE_DIR fs_env)"
    by (simp_all add: uploads_driver_def fs_env_def empty_env_def)
  moreover have "req_method (path_request ''GET'' [''avatars'', ''..'', ''x'']) = ''GET''"
    by (simp add: path_request_def)
  ultimately show ?thesis
    using C2_bad_key_never_reaches_filesystem [OF q bk, of fs_env "''/app''" no_files] by simp
qed

text \<open>
  The claim as stated fails in two ways. Not every such request is answered 400: under
  the \<^verbatim>\<open>s3\<close> driver the request is answered 404, and a POST is answered 405. And a
  \<^verbatim>\<open>..\<close> segment inside an element that holds a slash passes the test of the elements:
  the key \<^verbatim>\<open>x/../y\<close>, handed over as one element, resolves to
  \<^verbatim>\<open>/data/uploads/avatars/y\<close>, which is read from the disk and served.
\<close>

lemma uploads_handler_encoded_slash:
  "uploads_handler fs_env ''/app'' one_file (path_request ''GET'' [''avatars'', ''x/../y''])
     = (Stream 200, [Stat ''/data/uploads/avatars/y'', Read ''/data/uploads/avatars/y''])"
proof -
  have r: "path_resolve ''/app'' [''/data/uploads'', ''avatars'', ''x/../y'']
      = ''/data/uploads/avatars/y''"
    by (simp add: path_resolve_def)
  show ?thesis
    by (simp add: uploads_handler_def uploads_driver_def fs_env_def empty_env_def
        path_request_def bucketOk_def isBucketChar_def badKey_def uploadsRoot_example r
        startsWith_def one_file_def Let_def)
qed

theorem C2_bad_key_not_always_400:
  "''..'' \<in> set [''..'', ''x'']
   \<and> uploads_handler empty_env ''/app'' no_files (path_request ''GET'' [''avatars'', ''..'', ''x''])
       = (Json 404 ''Not found'', [])
   \<and> uploads_handler fs_env ''/app'' no_files (path_request ''POST'' [''avatars'', ''..'', ''x''])
       = (Json 405 ''Method not allowed'', [])
   \<and> ''..'' \<in> set (splitOn CHR ''/'' ''x/../y'')
   \<and> uploads_handler fs_env ''/app'' one_file (path_request ''GET'' [''avatars'', ''x/../y''])
       = (Stream 200, [Stat ''/data/uploads/avatars/y'', Read ''/data/uploads/avatars/y''])"
proof (intro conjI)
  show "''..'' \<in> set [''..'', ''x'']" by simp
  show "uploads_handler empty_env ''/app'' no_files
          (path_request ''GET'' [''avatars'', ''..'', ''x'']) = (Json 404 ''Not found'', [])"
    by (simp add: uploads_handler_def uploads_driver_def path_request_def empty_env_def)
  show "uploads_handler fs_env ''/app'' no_files
          (path_request ''POST'' [''avatars'', ''..'', ''x''])
        = (Json 405 ''Method not allowed'', [])"
    by (simp add: uploads_handler_def path_request_def)
  show "''..'' \<in> set (splitOn CHR ''/'' ''x/../y'')" by simp
  show "uploads_handler fs_env ''/app'' one_file (path_request ''GET'' [''avatars'', ''x/../y''])
       = (Stream 200, [Stat ''/data/uploads/avatars/y'', Read ''/data/uploads/avatars/y''])"
    by (rule uploads_handler_encoded_slash)
qed

text \<open>
  C8, as amended. In filesystem mode with a storage directory, for a bucket and key that
  resolve inside the uploads root, \<^verbatim>\<open>deleteObject\<close> calls \<^verbatim>\<open>unlink\<close> once and returns normally
  when the call resolves or rejects with \<^verbatim>\<open>ENOENT\<close>; any other rejection is thrown again.
  For a bucket and key that resolve outside the root it raises \<^verbatim>\<open>Invalid storage key\<close> and
  calls nothing.
\<close>

theorem C8_deleteObject_absent_is_noop:
  assumes "getStorageDriver e = ''fs''" and "KAN_STORAGE_DIR e = Some d" and "d \<noteq> []"
    and "candidate = path_resolve cwd
           (uploadsRoot cwd d # bucket # filter (\<lambda>s. s \<noteq> []) (splitOn CHR ''/'' key))"
  shows "deleteObject e cwd unlink s3Delete bucket key =
     (if \<not> inside (uploadsRoot cwd d) candidate then (Inl (Error ''Invalid storage key''), [])
      else case unlink candidate of
             None \<Rightarrow> (Inr (), [Unlink candidate])
           | Some code \<Rightarrow> if code = Some ''ENOENT'' then (Inr (), [Unlink candidate])
                          else (Inl (Rethrown code), [Unlink candidate]))"
proof (cases "inside (uploadsRoot cwd d) candidate")
  case False
  then show ?thesis
    using deleteObject_rejects [OF assms(1-3), of cwd bucket key unlink s3Delete] assms(4)
    by simp
next
  case True
  then have "startsWith candidate (uploadsRoot cwd d @ ''/'') \<or> candidate = uploadsRoot cwd d"
    unfolding assms(4) by (rule root_inside_guard)
  with True show ?thesis
    using assms by (auto simp: deleteObject_def Let_def split: option.splits)
qed

text \<open>At work: deleting the absent \<^verbatim>\<open>avatars/u1/a.png\<close> returns normally.\<close>

theorem C8_deleteObject_absent_is_noop_witness:
  "inside (uploadsRoot ''/app'' ''/data'') ''/data/uploads/avatars/u1/a.png''
   \<and> deleteObject fs_env ''/app'' enoent s3_unused ''avatars'' ''u1/a.png''
       = (Inr (), [Unlink ''/data/uploads/avatars/u1/a.png''])"
proof -
  have c: "''/data/uploads/avatars/u1/a.png'' = path_resolve ''/app''
      (uploadsRoot ''/app'' ''/data'' # ''avatars'' # filter (\<lambda>s. s \<noteq> []) (splitOn CHR ''/'' ''u1/a.png''))"
    by (simp add: uploadsRoot_example path_resolve_def)
  have i: "inside (uploadsRoot ''/app'' ''/data'') ''/data/uploads/avatars/u1/a.png''"
    by (simp add: uploadsRoot_example inside_def pathSegments_def)
  have d: "getStorageDriver fs_env = ''fs''" "KAN_STORAGE_DIR fs_env = Some ''/data''"
    by (simp_all add: getStorageDriver_def fs_env_def empty_env_def)
  have n: "''/data'' \<noteq> []" by simp
  from C8_deleteObject_absent_is_noop [OF d n c, of enoent s3_unused] i show ?thesis
    by (simp add: enoent_def)
qed

text \<open>
  The claim as stated (for every bucket and key) fails: the bucket \<^verbatim>\<open>..\<close> with the key
  \<^verbatim>\<open>x\<close> resolves to \<^verbatim>\<open>/data/x\<close>; no such file exists, and \<^verbatim>\<open>deleteObject\<close> raises.
\<close>

theorem C8_deleteObject_raises_outside_root:
  "getStorageDriver fs_env = ''fs''
   \<and> enoent ''/data/x'' = Some (Some ''ENOENT'')
   \<and> deleteObject fs_env ''/app'' enoent s3_unused ''..'' ''x''
       = (Inl (Error ''Invalid storage key''), [])"
proof (intro conjI)
  show "getStorageDriver fs_env = ''fs''"
    by (simp add: getStorageDriver_def fs_env_def empty_env_def)
  show "enoent ''/data/x'' = Some (Some ''ENOENT'')"
    by (simp add: enoent_def)
  show "deleteObject fs_env ''/app'' enoent s3_unused ''..'' ''x''
       = (Inl (Error ''Invalid storage key''), [])"
    by (rule deleteObject_example)
qed

text \<open>
  C9, as amended. A GET request to the attachment downloader whose \<^verbatim>\<open>url\<close> parses to an
  http or https URL is answered 400, with no fetch and no filesystem access, when the
  allow-list derived from \<^verbatim>\<open>NEXT_PUBLIC_STORAGE_URL\<close> and \<^verbatim>\<open>NEXT_PUBLIC_BASE_URL\<close> is not
  empty and does not hold the origin of the URL.
\<close>

theorem C9_disallowed_origin_rejected:
  assumes "req_method req = ''GET''" and "query req ''url'' = QString u" and "u \<noteq> []"
    and "parseURL u = Some parsedUrl"
    and "protocol parsedUrl = ''http:'' \<or> protocol parsedUrl = ''https:''"
    and "getAllowedOrigins e parseURL \<noteq> []"
    and "origin parsedUrl \<notin> set (getAllowedOrigins e parseURL)"
  shows "download_handler trim e cwd parseURL dec stat fetch req = (Json 400 ''Disallowed url'', [])"
  using assms by (auto simp: download_handler_def Let_def)

lemma allowedOrigins_web: "getAllowedOrigins web_env demo_parseURL = [''https://kan.example'']"
  by (simp add: getAllowedOrigins_def web_env_def fs_env_def empty_env_def demo_parseURL_def
      List.map_filter_def)

lemma allowedOrigins_empty: "getAllowedOrigins empty_env demo_parseURL = []"
  by (simp add: getAllowedOrigins_def empty_env_def List.map_filter_def)

lemma parse_evil: "demo_parseURL ''https://evil.example/x'' = Some evil_url"
  by (simp add: demo_parseURL_def evil_url_def)

text \<open>At work: with the storage URL \<^verbatim>\<open>https://kan.example\<close> a URL of another origin is refused.\<close>

theorem C9_disallowed_origin_rejected_witness:
  "getAllowedOrigins web_env demo_parseURL = [''https://kan.example'']
   \<and> origin evil_url = ''https://evil.example''
   \<and> download_handler trimAscii web_env ''/app'' demo_parseURL demo_decode no_files reachable
        (url_request ''GET'' ''https://evil.example/x'') = (Json 400 ''Disallowed url'', [])"
proof -
  have "req_method (url_request ''GET'' ''https://evil.example/x'') = ''GET''"
    and "query (url_request ''GET'' ''https://evil.example/x'') ''url''
         = QString ''https://evil.example/x''"
    and "''https://evil.example/x'' \<noteq> []"
    and "protocol evil_url = ''http:'' \<or> protocol evil_url = ''https:''"
    and "getAllowedOrigins web_env demo_parseURL \<noteq> []"
    and "origin evil_url \<notin> set (getAllowedOrigins web_env demo_parseURL)"
    by (simp_all add: url_request_def evil_url_def allowedOrigins_web)
  from C9_disallowed_origin_rejected [OF this(1,2,3) parse_evil this(4,5,6)] show ?thesis
    by (simp add: allowedOrigins_web evil_url_def)
qed

text \<open>
  The claim as stated fails when the allow-list is empty: with neither variable
  defined the origin differs from every allowed origin, and the handler fetches the URL
  and streams the answer.
\<close>

theorem C9_empty_allow_list_admits_any_origin:
  "getAllowedOrigins empty_env demo_parseURL = []
   \<and> demo_parseURL ''https://evil.example/x'' = Some evil_url
   \<and> protocol evil_url = ''https:''
   \<and> download_handler trimAscii empty_env ''/app'' demo_parseURL demo_decode no_files reachable
        (url_request ''GET'' ''https://evil.example/x'') = (Stream 200, [Fetch evil_url])"
proof (intro conjI)
  show "getAllowedOrigins empty_env demo_parseURL = []" by (rule allowedOrigins_empty)
  show "demo_parseURL ''https://evil.example/x'' = Some evil_url" by (rule parse_evil)
  show "protocol evil_url = ''https:''" by (simp add: evil_url_def)
  have "getStorageDriver_download empty_env = ''s3''"
    by (simp add: getStorageDriver_download_def empty_env_def)
  then show "download_handler trimAscii empty_env ''/app'' demo_parseURL demo_decode no_files reachable
        (url_request ''GET'' ''https://evil.example/x'') = (Stream 200, [Fetch evil_url])"
    by (simp add: download_handler_def url_request_def parse_evil allowedOrigins_empty
        fetchFallback_def reachable_def) (simp add: evil_url_def)
qed

text \<open>
  C10. When the attachment downloader has fetched the remote URL and the upstream
  response is not OK, the answer carries the status of the upstream response.
\<close>

theorem C10_upstream_status_passthrough:
  assumes "download_handler trim e cwd parseURL dec stat fetch req = (resp, effs)"
    and "Fetch parsedUrl \<in> set effs"
    and "fetch parsedUrl = Resolved up" and "\<not> up_ok up"
  shows "resp = Json (up_status up) ''Failed to fetch attachment''"
proof -
  have local: "Fetch parsedUrl \<notin> set fx"
    if "serveLocal cwd dec stat d upath pu = (r, fx)" for d upath pu r fx
    using that
    by (auto simp: serveLocal_def Let_def
        split: option.splits list.splits stat_result.splits if_splits)
  have fb: "resp = Json (up_status up) ''Failed to fetch attachment''"
    if "fetchFallback fetch pu = (resp, effs)" for pu
    using that assms(2-4) by (auto simp: fetchFallback_def split: fetch_result.splits if_splits)
  from assms(1,2) local fb show ?thesis
    by (auto simp: download_handler_def Let_def
        split: if_splits query_value.splits option.splits)
qed

text \<open>At work: an upstream 403 is answered 403.\<close>

theorem C10_upstream_status_passthrough_witness:
  "forbidden evil_url = Resolved \<lparr> up_ok = False, up_status = 403, up_has_body = True \<rparr>
   \<and> download_handler trimAscii empty_env ''/app'' demo_parseURL demo_decode no_files forbidden
        (url_request ''GET'' ''https://evil.example/x'')
       = (Json 403 ''Failed to fetch attachment'', [Fetch evil_url])"
proof -
  have f: "forbidden evil_url = Resolved \<lparr> up_ok = False, up_status = 403, up_has_body = True \<rparr>"
    by (simp add: forbidden_def)
  have "getStorageDriver_download empty_env = ''s3''"
    by (simp add: getStorageDriver_download_def empty_env_def)
  then have "snd (download_handler trimAscii empty_env ''/app'' demo_parseURL demo_decode no_files forbidden
        (url_request ''GET'' ''https://evil.example/x'')) = [Fetch evil_url]"
    by (simp add: download_handler_def url_request_def parse_evil allowedOrigins_empty
        fetchFallback_def forbidden_def) (simp add: evil_url_def)
  then obtain resp where h: "download_handler trimAscii empty_env ''/app'' demo_parseURL demo_decode
        no_files forbidden (url_request ''GET'' ''https://evil.example/x'')
        = (resp, [Fetch evil_url])"
    by (metis prod.collapse)
  have "resp = Json (up_status \<lparr> up_ok = False, up_status = 403, up_has_body = True \<rparr>)
       ''Failed to fetch attachment''"
    by (rule C10_upstream_status_passthrough [OF h _ f]) simp_all
  with h f show ?thesis by simp
qed

section \<open>Public object URLs: results\<close>

lemma hasDoubleSlash_append:
  "hasDoubleSlash (xs @ ys) \<longleftrightarrow>
     hasDoubleSlash xs \<or> hasDoubleSlash ys
     \<or> (xs \<noteq> [] \<and> last xs = CHR ''/'' \<and> ys \<noteq> [] \<and> hd ys = CHR ''/'')"
proof (induction xs)
  case Nil
  then show ?case by simp
next
  case (Cons a xs)
  show ?case
  proof (cases xs)
    case Nil
    then show ?thesis by (cases ys) auto
  next
    case (Cons b cs)
    with Cons.IH show ?thesis by auto
  qed
qed

lemma endsWith_slash: "endsWith s ''/'' \<longleftrightarrow> s \<noteq> [] \<and> last s = CHR ''/''"
proof (cases s rule: rev_cases)
  case Nil
  then show ?thesis by (simp add: endsWith_def)
next
  case (snoc ys y)
  then show ?thesis by (auto simp: endsWith_def)
qed

lemma last_dropWhile: "dropWhile P xs \<noteq> [] \<Longrightarrow> last (dropWhile P xs) = last xs"
  by (induction xs) (auto split: if_splits)

lemma stripSlashes_Nil [simp]: "stripSlashes [] = []"
  by (simp add: stripSlashes_def)

lemma stripSlashes_ends:
  assumes "stripSlashes p \<noteq> []"
  shows "hd (stripSlashes p) \<noteq> CHR ''/'' \<and> last (stripSlashes p) \<noteq> CHR ''/''"
proof -
  define q where "q = dropWhile (\<lambda>c. c = CHR ''/'') p"
  define r where "r = dropWhile (\<lambda>c. c = CHR ''/'') (rev q)"
  have s: "stripSlashes p = rev r" by (simp add: stripSlashes_def q_def r_def)
  with assms have r: "r \<noteq> []" by simp
  have q: "q \<noteq> []"
  proof
    assume "q = []"
    then have "r = []" by (simp add: r_def)
    with r show False by contradiction
  qed
  have "\<not> (hd r = CHR ''/'')"
    using r unfolding r_def by (rule hd_dropWhile)
  moreover have "last (rev r) = hd r" by (rule last_rev)
  ultimately have l: "last (stripSlashes p) \<noteq> CHR ''/''" by (metis s)
  have "last r = last (rev q)" using r unfolding r_def by (rule last_dropWhile)
  also have "\<dots> = hd q" by (rule last_rev)
  finally have lr: "last r = hd q" .
  have "hd (rev r) = last r" by (rule hd_rev)
  with lr have "hd (stripSlashes p) = hd q" by (metis s)
  moreover have "\<not> (hd q = CHR ''/'')"
    using q unfolding q_def by (rule hd_dropWhile)
  ultimately show ?thesis using l by metis
qed

lemma stripped_ends:
  "c \<in> set (filter (\<lambda>p. p \<noteq> []) (map stripSlashes ps))
   \<Longrightarrow> c \<noteq> [] \<and> hd c \<noteq> CHR ''/'' \<and> last c \<noteq> CHR ''/''"
  by (auto dest: stripSlashes_ends)

lemma urlComponents_ends:
  "c \<in> set (urlComponents trim e bucket key) \<Longrightarrow> c \<noteq> [] \<and> hd c \<noteq> CHR ''/'' \<and> last c \<noteq> CHR ''/''"
  unfolding urlComponents_def by (rule stripped_ends)

lemma cleaned_eq:
  "filter (\<lambda>p. length p > 0) (map stripSlashes (filter (\<lambda>p. p \<noteq> []) parts))
   = filter (\<lambda>p. p \<noteq> []) (map stripSlashes parts)"
  by (induction parts) auto

lemma slash_joinWith:
  "cs \<noteq> [] \<Longrightarrow> ''/'' @ joinWith ''/'' cs = concat (map ((#) CHR ''/'') cs)"
  by (induction "''/''" cs rule: joinWith.induct) auto

lemma joinUrl_closed_form:
  "joinUrl storageUrl [getUploadsPublicPath trim e, bucket, key]
   = trimmedBase storageUrl @ concat (map ((#) CHR ''/'') (urlComponents trim e bucket key))"
proof -
  let ?cs = "urlComponents trim e bucket key"
  have c: "filter (\<lambda>p. length p > 0)
      (map stripSlashes (filter (\<lambda>p. p \<noteq> []) [getUploadsPublicPath trim e, bucket, key])) = ?cs"
    unfolding urlComponents_def by (rule cleaned_eq)
  show ?thesis
  proof (cases "?cs = []")
    case True
    then show ?thesis unfolding joinUrl_def Let_def c by (simp add: trimmedBase_def)
  next
    case False
    then show ?thesis unfolding joinUrl_def Let_def c
      using slash_joinWith[OF False] by (simp add: trimmedBase_def)
  qed
qed

lemma hasDoubleSlash_components:
  assumes "\<forall>c\<in>set cs. c \<noteq> [] \<and> hd c \<noteq> CHR ''/'' \<and> last c \<noteq> CHR ''/''"
  shows "hasDoubleSlash (concat (map ((#) CHR ''/'') cs)) \<longleftrightarrow> (\<exists>c\<in>set cs. hasDoubleSlash c)"
  using assms
proof (induction cs)
  case Nil
  then show ?case by simp
next
  case (Cons c cs)
  then have c: "c \<noteq> []" "hd c \<noteq> CHR ''/''" "last c \<noteq> CHR ''/''" by simp_all
  have one: "hasDoubleSlash (CHR ''/'' # c) = hasDoubleSlash c"
    using c by (cases c) auto
  have "hasDoubleSlash (concat (map ((#) CHR ''/'') (c # cs)))
      = hasDoubleSlash ((CHR ''/'' # c) @ concat (map ((#) CHR ''/'') cs))" by simp
  also have "\<dots> \<longleftrightarrow> hasDoubleSlash c \<or> hasDoubleSlash (concat (map ((#) CHR ''/'') cs))"
    unfolding hasDoubleSlash_append one using c by auto
  finally show ?case using Cons by simp
qed

lemma doubleSlashAt_append:
  "doubleSlashAt (xs @ ys) i \<longleftrightarrow>
     doubleSlashAt xs i
     \<or> (Suc i = length xs \<and> last xs = CHR ''/'' \<and> ys \<noteq> [] \<and> hd ys = CHR ''/'')
     \<or> (length xs \<le> i \<and> doubleSlashAt ys (i - length xs))"
proof -
  consider "Suc i < length xs" | "Suc i = length xs" | "length xs \<le> i" by linarith
  then show ?thesis
  proof cases
    case 1
    then show ?thesis by (auto simp: doubleSlashAt_def nth_append)
  next
    case 2
    then have xs: "xs \<noteq> []" by auto
    have "i = length xs - 1" using 2 by simp
    then have l: "xs ! i = last xs" using xs by (simp add: last_conv_nth)
    have h: "(xs @ ys) ! Suc i = hd ys" if "ys \<noteq> []"
      using 2 that by (simp add: nth_append hd_conv_nth)
    have i: "(xs @ ys) ! i = xs ! i" using 2 by (simp add: nth_append)
    show ?thesis
    proof (cases "ys = []")
      case True
      with 2 show ?thesis by (simp add: doubleSlashAt_def)
    next
      case False
      with 2 l h i show ?thesis by (auto simp: doubleSlashAt_def)
    qed
  next
    case 3
    then have "Suc i - length xs = Suc (i - length xs)" by simp
    with 3 show ?thesis by (auto simp: doubleSlashAt_def nth_append)
  qed
qed

lemma doubleSlashAt_slash_Cons:
  assumes "c \<noteq> []" and "hd c \<noteq> CHR ''/''"
  shows "doubleSlashAt (CHR ''/'' # c) j \<longleftrightarrow> 0 < j \<and> doubleSlashAt c (j - 1)"
proof (cases j)
  case 0
  with assms show ?thesis by (simp add: doubleSlashAt_def hd_conv_nth)
next
  case (Suc k)
  then show ?thesis by (simp add: doubleSlashAt_def)
qed

lemma doubleSlashAt_components:
  assumes "\<forall>c\<in>set cs. c \<noteq> [] \<and> hd c \<noteq> CHR ''/'' \<and> last c \<noteq> CHR ''/''"
  shows "doubleSlashAt (concat (map ((#) CHR ''/'') cs)) j \<longleftrightarrow> doubleSlashInComponent cs j"
  using assms
proof (induction cs arbitrary: j)
  case Nil
  then show ?case by (simp add: doubleSlashAt_def)
next
  case (Cons c cs)
  then have c: "c \<noteq> []" "hd c \<noteq> CHR ''/''" "last c \<noteq> CHR ''/''" by simp_all
  have ih: "doubleSlashAt (concat (map ((#) CHR ''/'') cs)) k \<longleftrightarrow> doubleSlashInComponent cs k"
    for k using Cons by simp
  have "doubleSlashAt (concat (map ((#) CHR ''/'') (c # cs))) j
      \<longleftrightarrow> doubleSlashAt ((CHR ''/'' # c) @ concat (map ((#) CHR ''/'') cs)) j"
    by simp
  also have "\<dots> \<longleftrightarrow> (0 < j \<and> doubleSlashAt c (j - 1))
      \<or> (Suc (length c) \<le> j \<and> doubleSlashInComponent cs (j - Suc (length c)))"
    unfolding doubleSlashAt_append doubleSlashAt_slash_Cons [OF c(1,2)] ih
    using c by simp
  also have "\<dots> \<longleftrightarrow> doubleSlashInComponent (c # cs) j"
    by (simp add: Suc_le_eq)
  finally show ?case .
qed

lemma download_url_double_slash_iff:
  "hasDoubleSlash (trimmedBase storageUrl
                   @ concat (map ((#) CHR ''/'') (urlComponents trim e bucket key)))
   \<longleftrightarrow> hasDoubleSlash (trimmedBase storageUrl)
       \<or> (endsWith (trimmedBase storageUrl) ''/'' \<and> urlComponents trim e bucket key \<noteq> [])
       \<or> (\<exists>c\<in>set (urlComponents trim e bucket key). hasDoubleSlash c)"
proof -
  let ?cs = "urlComponents trim e bucket key"
  let ?X = "concat (map ((#) CHR ''/'') ?cs)"
  have ends: "\<forall>c\<in>set ?cs. c \<noteq> [] \<and> hd c \<noteq> CHR ''/'' \<and> last c \<noteq> CHR ''/''"
    using urlComponents_ends by blast
  have X: "hasDoubleSlash ?X \<longleftrightarrow> (\<exists>c\<in>set ?cs. hasDoubleSlash c)"
    using ends by (rule hasDoubleSlash_components)
  have hdX: "?X \<noteq> [] \<and> hd ?X = CHR ''/'' \<longleftrightarrow> ?cs \<noteq> []"
    by (cases ?cs) auto
  show ?thesis
    unfolding hasDoubleSlash_append X endsWith_slash using hdX by blast
qed

text \<open>
  C6, as amended. When the driver resolves to \<^verbatim>\<open>fs\<close> and \<^verbatim>\<open>NEXT_PUBLIC_STORAGE_URL\<close> is a
  non-empty string, \<^verbatim>\<open>generateDownloadUrl(bucket, key)\<close> returns the storage URL without
  one trailing slash, followed, for each non-empty one among the normalised uploads
  path, the bucket and the key once its leading and trailing slashes are stripped, in
  that order, by one slash and that component; when that string is empty (the storage
  URL is \<^verbatim>\<open>/\<close> and no component is left) it raises \<^verbatim>\<open>Storage URL not configured\<close> instead.
  Two slashes in a row stand at a position of the result exactly when the position lies
  in the trimmed storage URL, which has them there, or is the last one of the trimmed
  storage URL, which ends in a slash, with a component behind it, or lies inside a
  component, which has them there.
\<close>

theorem C6_download_url_is_joined:
  assumes "getStorageDriver e = ''fs''"
    and "NEXT_PUBLIC_STORAGE_URL e = Some storageUrl" and "storageUrl \<noteq> []"
  shows "generateDownloadUrl trim e getSignedUrl bucket key expiresIn =
           (if trimmedBase storageUrl = [] \<and> urlComponents trim e bucket key = [] then
              Inl (Error ''Storage URL not configured'')
            else Inr (trimmedBase storageUrl
                      @ concat (map ((#) CHR ''/'') (urlComponents trim e bucket key))))
         \<and> (doubleSlashAt (trimmedBase storageUrl
                            @ concat (map ((#) CHR ''/'') (urlComponents trim e bucket key))) i
            \<longleftrightarrow> doubleSlashAt (trimmedBase storageUrl) i
                \<or> (Suc i = length (trimmedBase storageUrl)
                    \<and> endsWith (trimmedBase storageUrl) ''/''
                    \<and> urlComponents trim e bucket key \<noteq> [])
                \<or> (length (trimmedBase storageUrl) \<le> i
                    \<and> doubleSlashInComponent (urlComponents trim e bucket key)
                          (i - length (trimmedBase storageUrl))))"
proof
  have "getPublicObjectUrl trim e bucket key
      = Some (trimmedBase storageUrl @ concat (map ((#) CHR ''/'') (urlComponents trim e bucket key)))"
    using assms(2,3) by (simp add: getPublicObjectUrl_def joinUrl_closed_form)
  then show "generateDownloadUrl trim e getSignedUrl bucket key expiresIn =
           (if trimmedBase storageUrl = [] \<and> urlComponents trim e bucket key = [] then
              Inl (Error ''Storage URL not configured'')
            else Inr (trimmedBase storageUrl
                      @ concat (map ((#) CHR ''/'') (urlComponents trim e bucket key))))"
    using assms(1) by (auto simp: generateDownloadUrl_def)
next
  let ?b = "trimmedBase storageUrl"
  let ?cs = "urlComponents trim e bucket key"
  let ?X = "concat (map ((#) CHR ''/'') ?cs)"
  have ends: "\<forall>c\<in>set ?cs. c \<noteq> [] \<and> hd c \<noteq> CHR ''/'' \<and> last c \<noteq> CHR ''/''"
    using urlComponents_ends by blast
  have X: "doubleSlashAt ?X k \<longleftrightarrow> doubleSlashInComponent ?cs k" for k
    using ends by (rule doubleSlashAt_components)
  have hdX: "?X \<noteq> [] \<and> hd ?X = CHR ''/'' \<longleftrightarrow> ?cs \<noteq> []"
    by (cases ?cs) auto
  have junction: "Suc i = length ?b \<and> last ?b = CHR ''/'' \<longleftrightarrow>
      Suc i = length ?b \<and> endsWith ?b ''/''"
    by (auto simp: endsWith_slash)
  show "doubleSlashAt (?b @ ?X) i
            \<longleftrightarrow> doubleSlashAt ?b i
                \<or> (Suc i = length ?b \<and> endsWith ?b ''/'' \<and> ?cs \<noteq> [])
                \<or> (length ?b \<le> i \<and> doubleSlashInComponent ?cs (i - length ?b))"
    unfolding doubleSlashAt_append X using hdX junction by blast
qed

lemma fs_driver_examples: "getStorageDriver web_env = ''fs''" "getStorageDriver slash_env = ''fs''"
  by (simp_all add: getStorageDriver_def web_env_def slash_env_def fs_env_def empty_env_def)

lemma uploads_path_examples: "getUploadsPublicPath trimAscii web_env = ''/uploads''" "getUploadsPublicPath trimAscii slash_env = ''/uploads''"
  by (simp_all add: getUploadsPublicPath_def normalizePublicPath_def trimAscii_def startsWith_def
      endsWith_def web_env_def slash_env_def fs_env_def empty_env_def)

lemma storage_url_examples: "NEXT_PUBLIC_STORAGE_URL web_env = Some ''https://kan.example''"
  "NEXT_PUBLIC_STORAGE_URL slash_env = Some ''https://kan.example//''"
  by (simp_all add: web_env_def slash_env_def)

lemma joinUrl_inner_slashes: "joinUrl ''https://kan.example'' [''/uploads'', ''attachments'', ''a//b.png'']
   = ''https://kan.example/uploads/attachments/a//b.png''"
  by (simp add: joinUrl_def stripSlashes_def endsWith_def)

lemma joinUrl_trailing_slashes: "joinUrl ''https://kan.example//'' [''/uploads'', ''avatars'', ''a.png'']
   = ''https://kan.example//uploads/avatars/a.png''"
  by (simp add: joinUrl_def stripSlashes_def endsWith_def)

lemma download_url_inner_slashes: "generateDownloadUrl trimAscii web_env no_signer ''attachments'' ''a//b.png'' 3600
     = Inr ''https://kan.example/uploads/attachments/a//b.png''"
  by (simp add: generateDownloadUrl_def fs_driver_examples getPublicObjectUrl_def uploads_path_examples storage_url_examples joinUrl_inner_slashes)

lemma download_url_trailing_slashes: "generateDownloadUrl trimAscii slash_env no_signer ''avatars'' ''a.png'' 3600
     = Inr ''https://kan.example//uploads/avatars/a.png''"
  by (simp add: generateDownloadUrl_def fs_driver_examples getPublicObjectUrl_def uploads_path_examples storage_url_examples joinUrl_trailing_slashes)



lemma urlComponents_example: "urlComponents trimAscii web_env ''avatars'' ''/u1/a.png'' = [''uploads'', ''avatars'', ''u1/a.png'']"
  by (simp add: urlComponents_def uploads_path_examples stripSlashes_def)

lemma trimmedBase_example: "trimmedBase ''https://kan.example'' = ''https://kan.example''"
  by (simp add: trimmedBase_def endsWith_def)

text \<open>
  With the storage URL \<^verbatim>\<open>/\<close>, the uploads path \<^verbatim>\<open>/\<close> and an empty bucket and key nothing is
  left to join, and the function raises.
\<close>

lemma download_url_empty_raises:
  "generateDownloadUrl trimAscii bare_env no_signer [] [] 3600
     = Inl (Error ''Storage URL not configured'')"
proof -
  have "getStorageDriver bare_env = ''fs''"
    by (simp add: getStorageDriver_def bare_env_def fs_env_def empty_env_def)
  moreover have "NEXT_PUBLIC_STORAGE_URL bare_env = Some ''/''"
    by (simp add: bare_env_def)
  moreover have "getUploadsPublicPath trimAscii bare_env = []"
    by (simp add: getUploadsPublicPath_def normalizePublicPath_def trimAscii_def isSpace_def
        bare_env_def)
  moreover have "joinUrl ''/'' [[], [], []] = []"
    by (simp add: joinUrl_def endsWith_def)
  ultimately show ?thesis
    by (simp add: generateDownloadUrl_def getPublicObjectUrl_def)
qed

text \<open>At work: the key \<^verbatim>\<open>/u1/a.png\<close> loses its leading slash and is joined once.\<close>

theorem C6_download_url_is_joined_witness:
  "getStorageDriver web_env = ''fs''
   \<and> NEXT_PUBLIC_STORAGE_URL web_env = Some ''https://kan.example''
   \<and> urlComponents trimAscii web_env ''avatars'' ''/u1/a.png'' = [''uploads'', ''avatars'', ''u1/a.png'']
   \<and> generateDownloadUrl trimAscii web_env no_signer ''avatars'' ''/u1/a.png'' 3600
       = Inr ''https://kan.example/uploads/avatars/u1/a.png''"
proof -
  have n: "''https://kan.example'' \<noteq> []" by simp
  from C6_download_url_is_joined [OF fs_driver_examples(1) storage_url_examples(1) n, of trimAscii no_signer "''avatars''" "''/u1/a.png''" 3600]
  have "generateDownloadUrl trimAscii web_env no_signer ''avatars'' ''/u1/a.png'' 3600
       = Inr ''https://kan.example/uploads/avatars/u1/a.png''"
    by (simp add: urlComponents_example trimmedBase_example)
  then show ?thesis by (simp add: fs_driver_examples storage_url_examples urlComponents_example)
qed

text \<open>
  The claim as stated (no duplicated slashes in the result) fails: the key
  \<^verbatim>\<open>a//b.png\<close> keeps its inner slashes, and of the two slashes that end the storage URL
  \<^verbatim>\<open>https://kan.example//\<close> only one is removed. In both results the part after the host has
  two slashes in a row.
\<close>

theorem C6_download_url_may_double_slashes:
  "getStorageDriver web_env = ''fs''
   \<and> generateDownloadUrl trimAscii web_env no_signer ''attachments'' ''a//b.png'' 3600
       = Inr (''https://kan.example'' @ ''/uploads/attachments/a//b.png'')
   \<and> hasDoubleSlash ''/uploads/attachments/a//b.png''
   \<and> getStorageDriver slash_env = ''fs''
   \<and> generateDownloadUrl trimAscii slash_env no_signer ''avatars'' ''a.png'' 3600
       = Inr (''https://kan.example'' @ ''//uploads/avatars/a.png'')
   \<and> hasDoubleSlash ''//uploads/avatars/a.png''"
  by (simp add: fs_driver_examples download_url_inner_slashes download_url_trailing_slashes)

end
